theory Spec2Isabelle
  imports Main
begin

section \<open>JavaScript strings\<close>

text \<open>
  A JavaScript string is a sequence of code units. The model uses \<^typ>\<open>string\<close>, whose
  characters are read as the code units U+0000 to U+00FF; the string operations the
  automation service calls are written out for that range.
\<close>

definition isWhiteSpace :: "char \<Rightarrow> bool" where
  \<comment> \<open>WhiteSpace and LineTerminator code units below U+0100: TAB, LF, VT, FF, CR, SP, NBSP.
      Used by \<open>String.prototype.trim\<close>, by \<open>parseInt\<close> and by the class \<open>\s\<close>.\<close>
  "isWhiteSpace c \<longleftrightarrow> c \<in> set [CHR 0x09, CHR 0x0A, CHR 0x0B, CHR 0x0C, CHR 0x0D, CHR 0x20, CHR 0xA0]"

definition isLineTerminator :: "char \<Rightarrow> bool" where
  "isLineTerminator c \<longleftrightarrow> c = CHR 0x0A \<or> c = CHR 0x0D"

definition isDigit :: "char \<Rightarrow> bool" where
  "isDigit c \<longleftrightarrow> c \<in> set ''0123456789''"

definition isUpperCase :: "char \<Rightarrow> bool" where
  \<comment> \<open>code units with a different lower-case form: A-Z, and U+00C0 to U+00DE without U+00D7\<close>
  "isUpperCase c \<longleftrightarrow>
     (let n = (of_char c :: nat)
      in (65 \<le> n \<and> n \<le> 90) \<or> (192 \<le> n \<and> n \<le> 222 \<and> n \<noteq> 215))"

definition toLowerChar :: "char \<Rightarrow> char" where
  "toLowerChar c = (if isUpperCase c then char_of ((of_char c :: nat) + 32) else c)"

definition toLowerCase :: "string \<Rightarrow> string" where
  "toLowerCase s = map toLowerChar s"

definition trim :: "string \<Rightarrow> string" where
  "trim s = rev (dropWhile isWhiteSpace (rev (dropWhile isWhiteSpace s)))"

definition startsWith :: "string \<Rightarrow> string \<Rightarrow> bool" where
  \<comment> \<open>\<open>s.startsWith(p)\<close>\<close>
  "startsWith s p \<longleftrightarrow> take (length p) s = p"

fun includesStr :: "string \<Rightarrow> string \<Rightarrow> bool" where
  \<comment> \<open>\<open>s.includes(p)\<close>\<close>
  "includesStr [] p = (p = [])"
| "includesStr (x # xs) p = (startsWith (x # xs) p \<or> includesStr xs p)"

fun replaceFirstChar :: "char \<Rightarrow> string \<Rightarrow> string" where
  \<comment> \<open>\<open>s.replace(c, "")\<close> with a one-character string pattern: the first occurrence goes\<close>
  "replaceFirstChar c [] = []"
| "replaceFirstChar c (x # xs) = (if x = c then xs else x # replaceFirstChar c xs)"

subsection \<open>Numbers in template literals, and parseInt\<close>

definition digitChar :: "nat \<Rightarrow> char" where
  "digitChar d = char_of (48 + d)"

fun showNat :: "nat \<Rightarrow> string" where
  "showNat n = (if n < 10 then [digitChar n] else showNat (n div 10) @ [digitChar (n mod 10)])"

declare showNat.simps [simp del]

definition showNumber :: "int option \<Rightarrow> string" where
  \<comment> \<open>\<open>`${n}`\<close> for the result of parseInt; \<open>None\<close> is NaN\<close>
  "showNumber v = (case v of
       None \<Rightarrow> ''NaN''
     | Some i \<Rightarrow> (if i < 0 then CHR ''-'' # showNat (nat (- i)) else showNat (nat i)))"

definition hexDigitVal :: "char \<Rightarrow> nat option" where
  "hexDigitVal c =
     (let n = (of_char c :: nat)
      in if 48 \<le> n \<and> n \<le> 57 then Some (n - 48)
         else if 97 \<le> n \<and> n \<le> 102 then Some (n - 87)
         else if 65 \<le> n \<and> n \<le> 70 then Some (n - 55)
         else None)"

definition parseInt16 :: "string \<Rightarrow> int option" where
  \<comment> \<open>\<open>parseInt(s, 16)\<close>: leading white space, a sign, a \<open>0x\<close> prefix, then the longest
      run of hexadecimal digits; NaN when that run is empty\<close>
  "parseInt16 s =
     (let s1 = dropWhile isWhiteSpace s;
          sign = (case s1 of c # _ \<Rightarrow> (if c = CHR ''-'' then - 1 else 1) | [] \<Rightarrow> (1::int));
          s2 = (case s1 of c # r \<Rightarrow> (if c = CHR ''-'' \<or> c = CHR ''+'' then r else s1) | [] \<Rightarrow> s1);
          s3 = (case s2 of
                  a # b # r \<Rightarrow> (if a = CHR ''0'' \<and> (b = CHR ''x'' \<or> b = CHR ''X'') then r else s2)
                | _ \<Rightarrow> s2);
          ds = takeWhile (\<lambda>c. hexDigitVal c \<noteq> None) s3
      in if ds = [] then None
         else Some (sign * int (foldl (\<lambda>a c. 16 * a + the (hexDigitVal c)) 0 ds)))"

section \<open>Regular expressions\<close>

text \<open>
  The regular expressions of the service are sequences of pieces: a character class
  with a quantifier, the same inside a capturing group, or a non-capturing alternation of
  literal words. Matching is the backtracking search of the language: every piece lists
  the ways it can match a prefix, in the order the engine tries them (a greedy quantifier
  the longest first, a lazy one the shortest first), and the first way whose
  continuation matches is taken.
\<close>

type_synonym cls = "char \<Rightarrow> bool"

datatype quant = One | ZeroOrOne | ZeroOrMore | OneOrMore | OneOrMoreLazy

datatype piece = Ch cls quant | Cap cls quant | Alt "cls list list"

definition ch :: "char \<Rightarrow> cls" where
  \<comment> \<open>a literal character\<close>
  "ch c = (\<lambda>x. x = c)"

definition chI :: "char \<Rightarrow> cls" where
  \<comment> \<open>a literal character under the flag \<open>i\<close>\<close>
  "chI c = (\<lambda>x. toLowerChar x = toLowerChar c)"

definition dot :: cls where
  "dot = (\<lambda>x. \<not> isLineTerminator x)"

definition alphaDashI :: cls where
  \<comment> \<open>\<open>[a-z-]\<close> under the flag \<open>i\<close>\<close>
  "alphaDashI = (\<lambda>x. x = CHR ''-'' \<or> (let n = (of_char x :: nat) in
       (97 \<le> n \<and> n \<le> 122) \<or> (65 \<le> n \<and> n \<le> 90)))"

definition lit :: "string \<Rightarrow> piece list" where
  "lit w = map (\<lambda>c. Ch (ch c) One) w"

definition litI :: "string \<Rightarrow> piece list" where
  "litI w = map (\<lambda>c. Ch (chI c) One) w"

primrec greedyRuns :: "cls \<Rightarrow> string \<Rightarrow> (string \<times> string) list" where
  \<comment> \<open>\<open>c*\<close>: the (matched, rest) splits, longest first\<close>
  "greedyRuns c [] = [([], [])]"
| "greedyRuns c (x # xs) =
     (if c x then map (\<lambda>(m, r). (x # m, r)) (greedyRuns c xs) else []) @ [([], x # xs)]"

primrec lazyRuns :: "cls \<Rightarrow> string \<Rightarrow> (string \<times> string) list" where
  \<comment> \<open>\<open>c*?\<close>: the (matched, rest) splits, shortest first\<close>
  "lazyRuns c [] = [([], [])]"
| "lazyRuns c (x # xs) =
     ([], x # xs) # (if c x then map (\<lambda>(m, r). (x # m, r)) (lazyRuns c xs) else [])"

definition quantified :: "cls \<Rightarrow> quant \<Rightarrow> string \<Rightarrow> (string \<times> string) list" where
  "quantified c q s =
     (case q of
        One \<Rightarrow> (case s of x # xs \<Rightarrow> (if c x then [([x], xs)] else []) | [] \<Rightarrow> [])
      | ZeroOrOne \<Rightarrow>
          (case s of x # xs \<Rightarrow> (if c x then [([x], xs)] else []) | [] \<Rightarrow> []) @ [([], s)]
      | ZeroOrMore \<Rightarrow> greedyRuns c s
      | OneOrMore \<Rightarrow>
          (case s of
             x # xs \<Rightarrow> (if c x then map (\<lambda>(m, r). (x # m, r)) (greedyRuns c xs) else [])
           | [] \<Rightarrow> [])
      | OneOrMoreLazy \<Rightarrow>
          (case s of
             x # xs \<Rightarrow> (if c x then map (\<lambda>(m, r). (x # m, r)) (lazyRuns c xs) else [])
           | [] \<Rightarrow> []))"

primrec word :: "cls list \<Rightarrow> string \<Rightarrow> (string \<times> string) option" where
  \<comment> \<open>a sequence of single characters\<close>
  "word [] s = Some ([], s)"
| "word (c # cs) s =
     (case s of
        [] \<Rightarrow> None
      | x # xs \<Rightarrow>
          (if c x then (case word cs xs of None \<Rightarrow> None | Some (m, r) \<Rightarrow> Some (x # m, r))
           else None))"

definition pieceMatches :: "piece \<Rightarrow> string \<Rightarrow> (string \<times> string) list" where
  "pieceMatches p s =
     (case p of
        Ch c q \<Rightarrow> quantified c q s
      | Cap c q \<Rightarrow> quantified c q s
      | Alt ws \<Rightarrow> List.map_filter (\<lambda>w. word w s) ws)"

definition capturing :: "piece \<Rightarrow> bool" where
  "capturing p = (case p of Cap _ _ \<Rightarrow> True | _ \<Rightarrow> False)"

primrec firstSome :: "('a \<Rightarrow> 'b option) \<Rightarrow> 'a list \<Rightarrow> 'b option" where
  "firstSome f [] = None"
| "firstSome f (x # xs) = (case f x of Some y \<Rightarrow> Some y | None \<Rightarrow> firstSome f xs)"

primrec rxm :: "piece list \<Rightarrow> string \<Rightarrow> (string list \<times> string) option" where
  \<comment> \<open>match the pattern at the start of the subject: the captures and the rest\<close>
  "rxm [] s = Some ([], s)"
| "rxm (p # ps) s =
     firstSome
       (\<lambda>(m, r). case rxm ps r of
                   None \<Rightarrow> None
                 | Some (gs, r') \<Rightarrow> Some (if capturing p then m # gs else gs, r'))
       (pieceMatches p s)"

fun rxSearch :: "piece list \<Rightarrow> string \<Rightarrow> string \<Rightarrow> (string \<times> string list \<times> string) option" where
  \<comment> \<open>the leftmost match: the text before it, its captures, the text after it\<close>
  "rxSearch ps pre s =
     (case rxm ps s of
        Some (gs, r) \<Rightarrow> Some (pre, gs, r)
      | None \<Rightarrow> (case s of [] \<Rightarrow> None | x # xs \<Rightarrow> rxSearch ps (pre @ [x]) xs))"

declare rxSearch.simps [simp del]

definition stringMatch :: "string \<Rightarrow> piece list \<Rightarrow> string list option" where
  \<comment> \<open>\<open>s.match(re)\<close> for a regular expression without the flag \<open>g\<close>: the captures\<close>
  "stringMatch s re = (case rxSearch re [] s of None \<Rightarrow> None | Some (pre, gs, r) \<Rightarrow> Some gs)"

definition stringReplace1 :: "string \<Rightarrow> piece list \<Rightarrow> string" where
  \<comment> \<open>\<open>s.replace(re, "$1")\<close>: the first match is replaced by its first capture\<close>
  "stringReplace1 s re =
     (case rxSearch re [] s of
        None \<Rightarrow> s
      | Some (pre, gs, r) \<Rightarrow> pre @ (case gs of g # _ \<Rightarrow> g | [] \<Rightarrow> ''$1'') @ r)"

section \<open>normalizeColorValue\<close>

datatype jsValue = JString string | JObjectConstructor | JObjectPrototype

definition colorMap :: "string \<Rightarrow> jsValue option" where
  \<comment> \<open>\<open>colorMap[key]\<close>. The table is an object literal, so a key it does not own is looked
      up in \<open>Object.prototype\<close>: \<open>constructor\<close> and \<open>__proto__\<close> are the two lower-case
      names found there, and both values are truthy.\<close>
  "colorMap key =
     (case map_of
        [(''yellow'', ''rgb(255, 255, 0)''),
         (''blue'', ''rgb(0, 0, 255)''),
         (''red'', ''rgb(255, 0, 0)''),
         (''green'', ''rgb(0, 128, 0)''),
         (''white'', ''rgb(255, 255, 255)''),
         (''black'', ''rgb(0, 0, 0)''),
         (''gray'', ''rgb(128, 128, 128)''),
         (''grey'', ''rgb(128, 128, 128)''),
         (''orange'', ''rgb(255, 165, 0)''),
         (''purple'', ''rgb(128, 0, 128)''),
         (''pink'', ''rgb(255, 192, 203)''),
         (''brown'', ''rgb(165, 42, 42)''),
         (''cyan'', ''rgb(0, 255, 255)''),
         (''magenta'', ''rgb(255, 0, 255)'')] key of
        Some v \<Rightarrow> Some (JString v)
      | None \<Rightarrow>
          (if key = ''constructor'' then Some JObjectConstructor
           else if key = ''__proto__'' then Some JObjectPrototype
           else None))"

definition rgbaRegex :: "piece list" where
  \<comment> \<open>\<open>/rgba?\((\d+),\s*(\d+),\s*(\d+)/\<close>\<close>
  "rgbaRegex =
     lit ''rgb'' @ [Ch (ch CHR ''a'') ZeroOrOne] @ lit ''('' @
     [Cap isDigit OneOrMore] @ lit '','' @ [Ch isWhiteSpace ZeroOrMore] @
     [Cap isDigit OneOrMore] @ lit '','' @ [Ch isWhiteSpace ZeroOrMore] @
     [Cap isDigit OneOrMore]"

definition rgbRegex :: "piece list" where
  \<comment> \<open>\<open>/rgb\((\d+),?\s*(\d+),?\s*(\d+)\)/\<close>\<close>
  "rgbRegex =
     lit ''rgb('' @
     [Cap isDigit OneOrMore, Ch (ch CHR '','') ZeroOrOne, Ch isWhiteSpace ZeroOrMore,
      Cap isDigit OneOrMore, Ch (ch CHR '','') ZeroOrOne, Ch isWhiteSpace ZeroOrMore,
      Cap isDigit OneOrMore] @ lit '')''"

definition rgbString :: "string \<Rightarrow> string \<Rightarrow> string \<Rightarrow> string" where
  \<comment> \<open>\<open>`rgb(${r}, ${g}, ${b})`\<close>\<close>
  "rgbString r g b = ''rgb('' @ r @ '', '' @ g @ '', '' @ b @ '')''"

definition hexToRgb :: "string \<Rightarrow> string option" where
  \<comment> \<open>the branch for a value that starts with \<open>#\<close>; \<open>None\<close> when neither length matches\<close>
  "hexToRgb lowerColor =
     (let hex = replaceFirstChar CHR ''#'' lowerColor
      in if length hex = 3 then
           Some (rgbString
             (showNumber (parseInt16 [hex ! 0, hex ! 0]))
             (showNumber (parseInt16 [hex ! 1, hex ! 1]))
             (showNumber (parseInt16 [hex ! 2, hex ! 2])))
         else if length hex = 6 then
           Some (rgbString
             (showNumber (parseInt16 (take 2 hex)))
             (showNumber (parseInt16 (take 2 (drop 2 hex))))
             (showNumber (parseInt16 (take 2 (drop 4 hex)))))
         else None)"

definition matchRgb :: "piece list \<Rightarrow> string \<Rightarrow> string option" where
  \<comment> \<open>\<open>const match = lowerColor.match(re); if (match) return `rgb(...)`\<close>\<close>
  "matchRgb re lowerColor =
     (case stringMatch lowerColor re of
        Some [r, g, b] \<Rightarrow> Some (rgbString r g b)
      | _ \<Rightarrow> None)"

definition normalizeColorValue :: "string \<Rightarrow> jsValue" where
  "normalizeColorValue color =
     (let lowerColor = trim (toLowerCase color)
      in case colorMap lowerColor of
           Some v \<Rightarrow> v
         | None \<Rightarrow>
            (case (if startsWith lowerColor ''rgba'' then matchRgb rgbaRegex lowerColor else None) of
               Some v \<Rightarrow> JString v
             | None \<Rightarrow>
                (case (if startsWith lowerColor ''rgb'' then matchRgb rgbRegex lowerColor else None) of
                   Some v \<Rightarrow> JString v
                 | None \<Rightarrow>
                    (case (if startsWith lowerColor ''#'' then hexToRgb lowerColor else None) of
                       Some v \<Rightarrow> JString v
                     | None \<Rightarrow> JString lowerColor))))"

section \<open>The browser\<close>

text \<open>
  Puppeteer is the environment of the service. Its state is a value of an arbitrary type
  \<open>'w\<close>, element handles have an arbitrary type \<open>'e\<close>, and each call the service makes is a
  function on that state which returns a value or throws. A session pairs the state with
  the calls made so far, in order. The fixed delays and the console output between the
  calls do not touch the browser and are left out.

  The calls: \<open>launch\<close> is \<open>puppeteer.launch\<close>, \<open>newPage\<close> is \<open>browser.newPage\<close>,
  \<open>setViewport\<close> and \<open>goto\<close> are the methods of the page, \<open>querySelector\<close> is \<open>page.$\<close>,
  \<open>computedStyle\<close> is the evaluation of \<open>getComputedStyle(el).getPropertyValue(prop)\<close>
  in the page, \<open>textContent\<close> the evaluation of \<open>el.textContent\<close>, \<open>click\<close>, \<open>hover\<close> and
  \<open>typeText\<close> are \<open>element.click\<close>, \<open>element.hover\<close> and \<open>element.type\<close>, and
  \<open>close\<close> is \<open>browser.close\<close>.
\<close>

datatype jsError = Error (message: string)

type_synonym ('w, 'a) io = "'w \<Rightarrow> (jsError + 'a) \<times> 'w"

record ('w, 'e) puppeteer =
  launch :: "('w, unit) io"
  newPage :: "('w, unit) io"
  setViewport :: "nat \<Rightarrow> nat \<Rightarrow> ('w, unit) io"
  goto :: "string \<Rightarrow> ('w, unit) io"
  querySelector :: "string \<Rightarrow> ('w, 'e option) io"
  computedStyle :: "'e \<Rightarrow> string \<Rightarrow> ('w, string) io"
  textContent :: "'e \<Rightarrow> ('w, string option) io"
  click :: "'e \<Rightarrow> ('w, unit) io"
  hover :: "'e \<Rightarrow> ('w, unit) io"
  typeText :: "'e \<Rightarrow> string \<Rightarrow> ('w, unit) io"
  close :: "('w, unit) io"

datatype event =
    Launch | NewPage | SetViewport nat nat | Goto string | Query string
  | ComputedStyle string | TextContent | Click | Hover | TypeText string | Close

record 'w session =
  world :: 'w
  trace :: "event list"

definition call :: "event \<Rightarrow> ('w, 'a) io \<Rightarrow> 'w session \<Rightarrow> (jsError + 'a) \<times> 'w session" where
  "call ev f s = (case f (world s) of (r, w) \<Rightarrow> (r, \<lparr>world = w, trace = trace s @ [ev]\<rparr>))"

section \<open>executeScenario\<close>

record TestScenario =
  action :: string
  target :: string
  expectedResult :: string
  description :: string

record TestResult =
  scenario :: TestScenario
  passed :: bool
  error :: "string option"
  actualValue :: "string option"
  screenshot :: "string option"

definition dq :: char where
  \<comment> \<open>the double quote\<close>
  "dq = CHR 0x22"

definition styleRegex :: "piece list" where
  \<comment> \<open>\<open>/([a-z-]+)\s+should\s+be\s+(.+)/i\<close>\<close>
  "styleRegex =
     [Cap alphaDashI OneOrMore, Ch isWhiteSpace OneOrMore] @ litI ''should'' @
     [Ch isWhiteSpace OneOrMore] @ litI ''be'' @
     [Ch isWhiteSpace OneOrMore, Cap dot OneOrMore]"

definition quotedValue :: "piece list" where
  \<comment> \<open>the tail \<open>"?(.+?)"?\<close> the three replace patterns share\<close>
  "quotedValue = [Ch (ch dq) ZeroOrOne, Cap dot OneOrMoreLazy, Ch (ch dq) ZeroOrOne]"

definition textRegex :: "piece list" where
  \<comment> \<open>\<open>/text should (?:contain|be) "?(.+?)"?/i\<close>\<close>
  "textRegex =
     litI ''text should '' @ [Alt [map chI ''contain'', map chI ''be'']] @ litI '' '' @
     quotedValue"

definition navigateRegex :: "piece list" where
  \<comment> \<open>\<open>/navigate to "?(.+?)"?/i\<close>\<close>
  "navigateRegex = litI ''navigate to '' @ quotedValue"

definition fillRegex :: "piece list" where
  \<comment> \<open>\<open>/fill with "?(.+?)"?/i\<close>\<close>
  "fillRegex = litI ''fill with '' @ quotedValue"

definition failed :: "TestScenario \<Rightarrow> string \<Rightarrow> TestResult" where
  \<comment> \<open>\<open>{ scenario, passed: false, error: msg }\<close>\<close>
  "failed sc msg =
     \<lparr>scenario = sc, passed = False, error = Some msg, actualValue = None, screenshot = None\<rparr>"

definition succeeded :: "TestScenario \<Rightarrow> TestResult" where
  \<comment> \<open>\<open>{ scenario, passed: true }\<close>\<close>
  "succeeded sc =
     \<lparr>scenario = sc, passed = True, error = None, actualValue = None, screenshot = None\<rparr>"

definition notFound :: "TestScenario \<Rightarrow> TestResult" where
  "notFound sc = failed sc (''Element '' @ [dq] @ target sc @ [dq] @ '' not found'')"

definition parseFailureMessage :: string where
  "parseFailureMessage =
     ''Could not parse expected result format. Use: '' @ [dq] @
     ''property-name should be value'' @ [dq]"

type_synonym ('w, 'e) handler =
  "('w, 'e) puppeteer \<Rightarrow> TestScenario \<Rightarrow> 'w session \<Rightarrow> (jsError + TestResult) \<times> 'w session"

definition checkStyle :: "('w, 'e) handler" where
  "checkStyle d sc s =
     (case call (Query (target sc)) (querySelector d (target sc)) s of
        (Inl e, s1) \<Rightarrow> (Inl e, s1)
      | (Inr None, s1) \<Rightarrow> (Inr (notFound sc), s1)
      | (Inr (Some element), s1) \<Rightarrow>
          (case stringMatch (expectedResult sc) styleRegex of
             Some [property, expectedValue] \<Rightarrow>
               (case call (ComputedStyle (trim property))
                       (computedStyle d element (trim property)) s1 of
                  (Inl e, s2) \<Rightarrow> (Inl e, s2)
                | (Inr actual, s2) \<Rightarrow>
                    (let ok = (normalizeColorValue (trim actual) =
                               normalizeColorValue (trim expectedValue))
                     in (Inr \<lparr>scenario = sc, passed = ok,
                              error = (if ok then None
                                       else Some (''Expected '' @ property @ '' to be '' @ [dq] @
                                                  expectedValue @ [dq] @ '', but got '' @ [dq] @
                                                  actual @ [dq])),
                              actualValue = Some (trim actual), screenshot = None\<rparr>, s2)))
           | _ \<Rightarrow> (Inr (failed sc parseFailureMessage), s1)))"

definition clickElement :: "('w, 'e) handler" where
  "clickElement d sc s =
     (case call (Query (target sc)) (querySelector d (target sc)) s of
        (Inl e, s1) \<Rightarrow> (Inl e, s1)
      | (Inr None, s1) \<Rightarrow> (Inr (notFound sc), s1)
      | (Inr (Some element), s1) \<Rightarrow>
          (case call Click (click d element) s1 of
             (Inl e, s2) \<Rightarrow> (Inl e, s2)
           | (Inr _, s2) \<Rightarrow> (Inr (succeeded sc), s2)))"

definition checkText :: "('w, 'e) handler" where
  "checkText d sc s =
     (case call (Query (target sc)) (querySelector d (target sc)) s of
        (Inl e, s1) \<Rightarrow> (Inl e, s1)
      | (Inr None, s1) \<Rightarrow> (Inr (notFound sc), s1)
      | (Inr (Some element), s1) \<Rightarrow>
          (case call TextContent (textContent d element) s1 of
             (Inl e, s2) \<Rightarrow> (Inl e, s2)
           | (Inr actualText, s2) \<Rightarrow>
               (let expectedText = stringReplace1 (expectedResult sc) textRegex;
                    ok = (case actualText of
                            None \<Rightarrow> False
                          | Some t \<Rightarrow> includesStr t expectedText \<or> t = expectedText)
                in (Inr \<lparr>scenario = sc, passed = ok,
                         error = (if ok then None
                                  else Some (''Expected text to contain '' @ [dq] @ expectedText @
                                             [dq] @ '', but got '' @ [dq] @
                                             (case actualText of None \<Rightarrow> ''null'' | Some t \<Rightarrow> t) @
                                             [dq])),
                         actualValue = Some (case actualText of None \<Rightarrow> [] | Some t \<Rightarrow> t),
                         screenshot = None\<rparr>, s2))))"

definition checkVisibility :: "('w, 'e) handler" where
  "checkVisibility d sc s =
     (case call (Query (target sc)) (querySelector d (target sc)) s of
        (Inl e, s1) \<Rightarrow> (Inl e, s1)
      | (Inr element, s1) \<Rightarrow>
          (let isVisible = (element \<noteq> None);
               shouldBeVisible = includesStr (toLowerCase (expectedResult sc)) ''visible'';
               ok = (isVisible = shouldBeVisible)
           in (Inr \<lparr>scenario = sc, passed = ok,
                    error = (if ok then None
                             else Some (''Expected element to be '' @
                                        (if shouldBeVisible then ''visible'' else ''hidden''))),
                    actualValue = Some (if isVisible then ''visible'' else ''not visible''),
                    screenshot = None\<rparr>, s1)))"

definition navigate :: "('w, 'e) handler" where
  "navigate d sc s =
     (let url = stringReplace1 (expectedResult sc) navigateRegex
      in case call (Goto url) (goto d url) s of
           (Inl e, s1) \<Rightarrow> (Inl e, s1)
         | (Inr _, s1) \<Rightarrow> (Inr (succeeded sc), s1))"

definition hoverElement :: "('w, 'e) handler" where
  "hoverElement d sc s =
     (case call (Query (target sc)) (querySelector d (target sc)) s of
        (Inl e, s1) \<Rightarrow> (Inl e, s1)
      | (Inr None, s1) \<Rightarrow> (Inr (notFound sc), s1)
      | (Inr (Some element), s1) \<Rightarrow>
          (case call Hover (hover d element) s1 of
             (Inl e, s2) \<Rightarrow> (Inl e, s2)
           | (Inr _, s2) \<Rightarrow> (Inr (succeeded sc), s2)))"

definition fillInput :: "('w, 'e) handler" where
  "fillInput d sc s =
     (case call (Query (target sc)) (querySelector d (target sc)) s of
        (Inl e, s1) \<Rightarrow> (Inl e, s1)
      | (Inr None, s1) \<Rightarrow> (Inr (notFound sc), s1)
      | (Inr (Some element), s1) \<Rightarrow>
          (let v = stringReplace1 (expectedResult sc) fillRegex
           in case call (TypeText v) (typeText d element v) s1 of
                (Inl e, s2) \<Rightarrow> (Inl e, s2)
              | (Inr _, s2) \<Rightarrow> (Inr (succeeded sc), s2)))"

definition dispatch :: "('w, 'e) handler" where
  \<comment> \<open>the body of the \<open>try\<close> block: \<open>switch (action.toLowerCase())\<close>\<close>
  "dispatch d sc s =
     (let a = toLowerCase (action sc)
      in if a = ''check_style'' then checkStyle d sc s
         else if a = ''click'' then clickElement d sc s
         else if a = ''check_text'' then checkText d sc s
         else if a = ''check_visibility'' then checkVisibility d sc s
         else if a = ''navigate'' then navigate d sc s
         else if a = ''hover'' then hoverElement d sc s
         else if a = ''fill_input'' then fillInput d sc s
         else (Inr (failed sc (''Unknown action: '' @ action sc)), s))"

definition executeScenario ::
  "('w, 'e) puppeteer \<Rightarrow> TestScenario \<Rightarrow> 'w session \<Rightarrow> TestResult \<times> 'w session" where
  \<comment> \<open>\<open>try { ... } catch (error) { return { scenario, passed: false, error: error.message } }\<close>\<close>
  "executeScenario d sc s =
     (case dispatch d sc s of
        (Inl e, s') \<Rightarrow> (failed sc (message e), s')
      | (Inr result, s') \<Rightarrow> (result, s'))"

section \<open>runTests\<close>

fun runScenarios ::
  "('w, 'e) puppeteer \<Rightarrow> TestScenario list \<Rightarrow> TestResult list \<Rightarrow> 'w session \<Rightarrow>
   TestResult list \<times> 'w session" where
  \<comment> \<open>the \<open>for\<close> loop: \<open>results.push(await executeScenario(page, scenario))\<close>\<close>
  "runScenarios d [] results s = (results, s)"
| "runScenarios d (sc # rest) results s =
     (case executeScenario d sc s of (result, s') \<Rightarrow> runScenarios d rest (results @ [result]) s')"

definition openPage ::
  "('w, 'e) puppeteer \<Rightarrow> string \<Rightarrow> 'w session \<Rightarrow> (jsError + unit) \<times> 'w session" where
  \<comment> \<open>\<open>browser.newPage()\<close>, \<open>page.setViewport(...)\<close> and \<open>page.goto(portalUrl, ...)\<close>\<close>
  "openPage d portalUrl s =
     (case call NewPage (newPage d) s of
        (Inl e, s1) \<Rightarrow> (Inl e, s1)
      | (Inr _, s1) \<Rightarrow>
     (case call (SetViewport 1920 1080) (setViewport d 1920 1080) s1 of
        (Inl e, s2) \<Rightarrow> (Inl e, s2)
      | (Inr _, s2) \<Rightarrow> call (Goto portalUrl) (goto d portalUrl) s2))"

definition openAndRun ::
  "('w, 'e) puppeteer \<Rightarrow> string \<Rightarrow> TestScenario list \<Rightarrow> 'w session \<Rightarrow>
   (jsError + TestResult list) \<times> 'w session" where
  \<comment> \<open>the \<open>try\<close> block after \<open>browser\<close> is assigned\<close>
  "openAndRun d portalUrl scenarios s =
     (case openPage d portalUrl s of
        (Inl e, s1) \<Rightarrow> (Inl e, s1)
      | (Inr _, s1) \<Rightarrow>
          (case runScenarios d scenarios [] s1 of (results, s2) \<Rightarrow> (Inr results, s2)))"

definition rethrow :: "jsError + 'a \<Rightarrow> jsError + 'a" where
  \<comment> \<open>\<open>catch (error) { throw new Error(`Browser automation failed: ${error.message}`) }\<close>\<close>
  "rethrow r =
     (case r of
        Inl e \<Rightarrow> Inl (Error (''Browser automation failed: '' @ message e))
      | Inr v \<Rightarrow> Inr v)"

definition runTests ::
  "('w, 'e) puppeteer \<Rightarrow> string \<Rightarrow> TestScenario list \<Rightarrow> 'w session \<Rightarrow>
   (jsError + TestResult list) \<times> 'w session" where
  \<comment> \<open>When the launch throws, \<open>browser\<close> is still null and \<open>finally\<close> closes nothing.
      Otherwise \<open>finally\<close> closes the browser; an error thrown there replaces the
      completion of the \<open>try\<close> and \<open>catch\<close> blocks.\<close>
  "runTests d portalUrl scenarios s =
     (case call Launch (launch d) s of
        (Inl e, s1) \<Rightarrow> (rethrow (Inl e), s1)
      | (Inr _, s1) \<Rightarrow>
          (case openAndRun d portalUrl scenarios s1 of
             (r, s2) \<Rightarrow>
               (case call Close (close d) s2 of
                  (Inl e, s3) \<Rightarrow> (Inl e, s3)
                | (Inr _, s3) \<Rightarrow> (rethrow r, s3))))"

section \<open>A page to run against\<close>

text \<open>
  A browser showing a fixed page: a button \<open>#btn\<close> with a yellow background, whose
  computed value the browser reports as \<open>rgb(255, 255, 0)\<close>, and a heading \<open>h1\<close> with the
  text Hello; an element handle is the selector that found it. The state is the number of
  calls the browser process still answers: at 0 the process is gone and every call
  throws. Closing always returns.
\<close>

definition targetClosed :: jsError where
  "targetClosed = Error ''Protocol error: Target closed''"

definition whileAlive :: "'a \<Rightarrow> (nat, 'a) io" where
  "whileAlive v n = (if n = 0 then (Inl targetClosed, 0) else (Inr v, n - 1))"

definition demoBrowser :: "(nat, string) puppeteer" where
  "demoBrowser =
     \<lparr>launch = whileAlive (),
      newPage = whileAlive (),
      setViewport = (\<lambda>w h. whileAlive ()),
      goto = (\<lambda>url. whileAlive ()),
      querySelector = (\<lambda>sel. whileAlive (if sel \<in> set [''#btn'', ''h1''] then Some sel else None)),
      computedStyle = (\<lambda>el prop. whileAlive
         (if el = ''#btn'' \<and> prop = ''background-color'' then ''rgb(255, 255, 0)'' else [])),
      textContent = (\<lambda>el. whileAlive (Some (if el = ''h1'' then ''Hello'' else []))),
      click = (\<lambda>el. whileAlive ()),
      hover = (\<lambda>el. whileAlive ()),
      typeText = (\<lambda>el v. whileAlive ()),
      close = (\<lambda>n. (Inr (), n))\<rparr>"

definition start :: "nat \<Rightarrow> nat session" where
  "start n = \<lparr>world = n, trace = []\<rparr>"

definition step :: "string \<Rightarrow> string \<Rightarrow> string \<Rightarrow> TestScenario" where
  "step a t e = \<lparr>action = a, target = t, expectedResult = e, description = []\<rparr>"

definition portal :: string where
  "portal = ''http://localhost:3000''"

definition threeSteps :: "TestScenario list" where
  \<comment> \<open>a click on an element the page does not have, a click on the button, a text check\<close>
  "threeSteps =
     [step ''click'' ''#missing'' [],
      step ''click'' ''#btn'' [],
      step ''check_text'' ''h1'' ''text should be Hello'']"

definition quotedHello :: string where
  \<comment> \<open>\<open>text should contain "Hello"\<close>\<close>
  "quotedHello = ''text should contain '' @ [dq] @ ''Hello'' @ [dq]"

definition dragAndClick :: "TestScenario list" where
  \<comment> \<open>an action the dispatcher does not know, then a click\<close>
  "dragAndClick = [step ''drag_drop'' ''#btn'' ''drag to h1'', step ''click'' ''#btn'' []]"

definition clickAndCheck :: "TestScenario list" where
  "clickAndCheck =
     [step ''click'' ''#btn'' [], step ''check_text'' ''h1'' ''text should be Hello'']"

definition yellowButton :: TestScenario where
  "yellowButton = step ''check_style'' ''#btn'' ''background-color should be yellow''"

definition styleThenClick :: "TestScenario list" where
  \<comment> \<open>a check_style expectation that is not in the required format, then a click\<close>
  "styleThenClick =
     [step ''check_style'' ''#btn'' ''yellow background'', step ''click'' ''#btn'' []]"


section \<open>Observing a run\<close>

text \<open>
  The session in which the scenario at index \<open>i\<close> starts, when the loop starts in \<open>s\<close>:
  the session the scenarios before it have left.
\<close>

definition sessionBefore ::
  "('w, 'e) puppeteer \<Rightarrow> TestScenario list \<Rightarrow> 'w session \<Rightarrow> nat \<Rightarrow> 'w session" where
  "sessionBefore d scs s i = foldl (\<lambda>s sc. snd (executeScenario d sc s)) s (take i scs)"

text \<open>
  A browser with a counter beside its state. Closing runs \<open>close d\<close> on the state and
  adds one to the counter; every other call runs as in \<open>d\<close> and leaves the counter.
\<close>

definition uncounted :: "('w, 'a) io \<Rightarrow> ('w \<times> nat, 'a) io" where
  "uncounted f = (\<lambda>(w, n). case f w of (r, w') \<Rightarrow> (r, (w', n)))"

definition countingCloses :: "('w, 'e) puppeteer \<Rightarrow> ('w \<times> nat, 'e) puppeteer" where
  "countingCloses d =
     \<lparr>launch = uncounted (launch d),
      newPage = uncounted (newPage d),
      setViewport = (\<lambda>w h. uncounted (setViewport d w h)),
      goto = (\<lambda>url. uncounted (goto d url)),
      querySelector = (\<lambda>sel. uncounted (querySelector d sel)),
      computedStyle = (\<lambda>el prop. uncounted (computedStyle d el prop)),
      textContent = (\<lambda>el. uncounted (textContent d el)),
      click = (\<lambda>el. uncounted (click d el)),
      hover = (\<lambda>el. uncounted (hover d el)),
      typeText = (\<lambda>el v. uncounted (typeText d el v)),
      close = (\<lambda>(w, n). case close d w of (r, w') \<Rightarrow> (r, (w', Suc n)))\<rparr>"

definition withCount :: "nat \<Rightarrow> 'w session \<Rightarrow> ('w \<times> nat) session" where
  "withCount n s = \<lparr>world = (world s, n), trace = trace s\<rparr>"

section \<open>Calls, handlers and the loop\<close>

lemma call_eqD:
  "call ev f s = (r, s') \<Longrightarrow> f (world s) = (r, world s') \<and> trace s' = trace s @ [ev]"
  by (auto simp add: call_def split: prod.splits)

lemmas handler_defs =
  checkStyle_def clickElement_def checkText_def checkVisibility_def
  navigate_def hoverElement_def fillInput_def

lemma dispatch_scenario: "dispatch d sc s = (Inr r, s') \<Longrightarrow> scenario r = sc"
  unfolding dispatch_def handler_defs Let_def
  by (auto simp: failed_def succeeded_def notFound_def
           split: if_splits prod.splits sum.splits option.splits list.splits)

lemma executeScenario_scenario: "scenario (fst (executeScenario d sc s)) = sc"
  by (auto simp: executeScenario_def failed_def dest: dispatch_scenario
           split: prod.splits sum.splits)

lemma dispatch_closes:
  "dispatch d sc s = (r, s') \<Longrightarrow> count_list (trace s') Close = count_list (trace s) Close"
  unfolding dispatch_def handler_defs Let_def
  by (auto dest!: call_eqD split: if_splits prod.splits sum.splits option.splits list.splits)

lemma executeScenario_closes:
  "executeScenario d sc s = (r, s') \<Longrightarrow>
   count_list (trace s') Close = count_list (trace s) Close"
  by (auto simp: executeScenario_def dest: dispatch_closes split: prod.splits sum.splits)

lemma runScenarios_closes:
  "runScenarios d scs acc s = (rs, s') \<Longrightarrow>
   count_list (trace s') Close = count_list (trace s) Close"
proof (induction scs arbitrary: acc s)
  case Nil
  then show ?case by simp
next
  case (Cons sc rest)
  obtain r s1 where e: "executeScenario d sc s = (r, s1)"
    by (cases "executeScenario d sc s")
  with Cons.prems have "runScenarios d rest (acc @ [r]) s1 = (rs, s')" by simp
  from Cons.IH [OF this] executeScenario_closes [OF e] show ?case by simp
qed

text \<open>
  The loop appends one result per scenario, each of them the result of
  \<open>executeScenario\<close> on the scenario at that index.
\<close>

lemma runScenarios_results:
  "runScenarios d scs acc s = (rs, s') \<Longrightarrow>
   \<exists>new. rs = acc @ new \<and> length new = length scs \<and>
     (\<forall>i<length scs. \<exists>si. new ! i = fst (executeScenario d (scs ! i) si))"
proof (induction scs arbitrary: acc s)
  case Nil
  then show ?case by simp
next
  case (Cons sc rest)
  obtain r s1 where e: "executeScenario d sc s = (r, s1)"
    by (cases "executeScenario d sc s")
  with Cons.prems have "runScenarios d rest (acc @ [r]) s1 = (rs, s')" by simp
  from Cons.IH [OF this] obtain new where
    n: "rs = (acc @ [r]) @ new" "length new = length rest"
       "\<forall>i<length rest. \<exists>si. new ! i = fst (executeScenario d (rest ! i) si)"
    by blast
  have "\<forall>i<length (sc # rest).
          \<exists>si. (r # new) ! i = fst (executeScenario d ((sc # rest) ! i) si)"
  proof (intro allI impI)
    fix i assume i: "i < length (sc # rest)"
    show "\<exists>si. (r # new) ! i = fst (executeScenario d ((sc # rest) ! i) si)"
    proof (cases i)
      case 0
      with e show ?thesis by (auto intro: exI [of _ s])
    next
      case (Suc j)
      with i n(3) show ?thesis by simp
    qed
  qed
  with n(1,2) show ?case by (intro exI [of _ "r # new"]) simp
qed

lemma runTests_InrD:
  assumes "fst (runTests d portalUrl scenarios s) = Inr results"
  shows "\<exists>s1 s2. runScenarios d scenarios [] s1 = (results, s2)"
  using assms unfolding runTests_def openAndRun_def rethrow_def
  by (auto split: prod.splits sum.splits)

lemma runTests_nth:
  assumes "fst (runTests d portalUrl scenarios s) = Inr results"
  shows "length results = length scenarios \<and>
         (\<forall>i<length scenarios. \<exists>si. results ! i = fst (executeScenario d (scenarios ! i) si))"
proof -
  from runTests_InrD [OF assms] obtain s1 s2 where
    "runScenarios d scenarios [] s1 = (results, s2)" by blast
  from runScenarios_results [OF this] show ?thesis by auto
qed

lemma openPage_closes:
  "openPage d u s = (r, s') \<Longrightarrow> count_list (trace s') Close = count_list (trace s) Close"
  unfolding openPage_def
  by (auto dest!: call_eqD split: prod.splits sum.splits)

lemma openAndRun_closes:
  "openAndRun d u scs s = (r, s') \<Longrightarrow>
   count_list (trace s') Close = count_list (trace s) Close"
  unfolding openAndRun_def
  by (auto dest!: openPage_closes runScenarios_closes split: prod.splits sum.splits)


lemma executeScenario_unknown:
  assumes "toLowerCase (action sc) \<notin>
     {''navigate'', ''click'', ''hover'', ''fill_input'', ''check_style'', ''check_text'',
      ''check_visibility''}"
  shows "executeScenario d sc s = (failed sc (''Unknown action: '' @ action sc), s)"
  using assms by (simp add: executeScenario_def dispatch_def Let_def)


lemma executeScenario_parseFailure:
  assumes "toLowerCase (action sc) = ''check_style''"
    and "call (Query (target sc)) (querySelector d (target sc)) s = (Inr (Some el), s1)"
    and "stringMatch (expectedResult sc) styleRegex = None"
  shows "executeScenario d sc s = (failed sc parseFailureMessage, s1)"
  using assms by (simp add: executeScenario_def dispatch_def Let_def checkStyle_def)

lemma stringReplace1_no_match: "stringMatch x re = None \<Longrightarrow> stringReplace1 x re = x"
  by (simp add: stringMatch_def stringReplace1_def split: option.splits prod.splits)

section \<open>Greedy matching\<close>

text \<open>
  A greedy quantifier first tries the whole run of characters of its class; when the
  rest of the pattern matches after that run, this is the match the search returns.
\<close>

lemma greedyRuns_head:
  assumes "\<forall>x\<in>set m. c x" and "r = [] \<or> \<not> c (hd r)"
  shows "\<exists>alts. greedyRuns c (m @ r) = (m, r) # alts"
  using assms
proof (induction m)
  case Nil
  then show ?case by (cases r) auto
next
  case (Cons a m)
  then obtain alts where "greedyRuns c (m @ r) = (m, r) # alts" by auto
  with Cons.prems show ?case by simp
qed

lemma plus_head:
  assumes "m \<noteq> []" and "\<forall>x\<in>set m. c x" and "r = [] \<or> \<not> c (hd r)"
  shows "\<exists>alts. quantified c OneOrMore (m @ r) = (m, r) # alts"
proof (cases m)
  case Nil
  with assms show ?thesis by simp
next
  case (Cons a m')
  with assms have "\<forall>x\<in>set m'. c x" and a: "c a" by auto
  from greedyRuns_head [OF this(1) assms(3)] obtain alts where
    "greedyRuns c (m' @ r) = (m', r) # alts" by blast
  with Cons a show ?thesis by (simp add: quantified_def)
qed

lemma rxm_head:
  assumes "pieceMatches p s = (m, r) # alts" and "rxm ps r = Some (gs, r')"
  shows "rxm (p # ps) s = Some (if capturing p then m # gs else gs, r')"
  using assms by simp

lemma rxm_Ch_plus:
  assumes "m \<noteq> []" and "\<forall>x\<in>set m. c x" and "r = [] \<or> \<not> c (hd r)"
    and "rxm ps r = Some (gs, r')"
  shows "rxm (Ch c OneOrMore # ps) (m @ r) = Some (gs, r')"
proof -
  from plus_head [OF assms(1-3)] obtain alts where
    "pieceMatches (Ch c OneOrMore) (m @ r) = (m, r) # alts"
    by (auto simp: pieceMatches_def)
  from rxm_head [OF this assms(4)] show ?thesis by (simp add: capturing_def)
qed

lemma rxm_Cap_plus:
  assumes "m \<noteq> []" and "\<forall>x\<in>set m. c x" and "r = [] \<or> \<not> c (hd r)"
    and "rxm ps r = Some (gs, r')"
  shows "rxm (Cap c OneOrMore # ps) (m @ r) = Some (m # gs, r')"
proof -
  from plus_head [OF assms(1-3)] obtain alts where
    "pieceMatches (Cap c OneOrMore) (m @ r) = (m, r) # alts"
    by (auto simp: pieceMatches_def)
  from rxm_head [OF this assms(4)] show ?thesis by (simp add: capturing_def)
qed

lemma rxm_litI:
  assumes "map toLowerChar w = map toLowerChar l" and "rxm ps r = Some (gs, r')"
  shows "rxm (litI l @ ps) (w @ r) = Some (gs, r')"
  using assms(1)
proof (induction l arbitrary: w)
  case Nil
  with assms(2) show ?case by (simp add: litI_def)
next
  case (Cons c l)
  then obtain x w' where w: "w = x # w'" and x: "toLowerChar x = toLowerChar c"
    and w': "map toLowerChar w' = map toLowerChar l" by auto
  from Cons.IH [OF w'] have "rxm (litI l @ ps) (w' @ r) = Some (gs, r')" .
  with x show ?case
    by (simp add: w litI_def pieceMatches_def quantified_def chI_def capturing_def)
qed

lemma whiteSpace_not_alphaDash: "isWhiteSpace x \<Longrightarrow> \<not> alphaDashI x"
  by (auto simp: isWhiteSpace_def alphaDashI_def)

lemma whiteSpace_toLowerChar: "isWhiteSpace x \<Longrightarrow> toLowerChar x = x"
  by (auto simp: isWhiteSpace_def toLowerChar_def isUpperCase_def)

lemma word_start:
  assumes "map toLowerChar w = map toLowerChar (c # l)" and "\<not> isWhiteSpace (toLowerChar c)"
  shows "w @ r \<noteq> [] \<and> \<not> isWhiteSpace (hd (w @ r))"
proof -
  from assms(1) obtain x w' where w: "w = x # w'" and x: "toLowerChar x = toLowerChar c"
    by auto
  from x assms(2) whiteSpace_toLowerChar [of x] have "\<not> isWhiteSpace x" by auto
  with w show ?thesis by simp
qed

text \<open>
  The check_style pattern on a text of the form \<open><property> should be <value>\<close>: the
  property is a run of letters and dashes, the three gaps are runs of white space, the
  two words are in any letter case, and the value starts with a character that is not
  white space and has no line terminator. The captures are the property and the value.
\<close>

lemma styleRegex_grammar:
  assumes p: "p \<noteq> []" "\<forall>x\<in>set p. alphaDashI x"
    and w1: "w1 \<noteq> []" "\<forall>x\<in>set w1. isWhiteSpace x"
    and should: "toLowerCase should = ''should''"
    and w2: "w2 \<noteq> []" "\<forall>x\<in>set w2. isWhiteSpace x"
    and be: "toLowerCase be = ''be''"
    and w3: "w3 \<noteq> []" "\<forall>x\<in>set w3. isWhiteSpace x"
    and v: "v \<noteq> []" "\<not> isWhiteSpace (hd v)" "\<forall>x\<in>set v. \<not> isLineTerminator x"
  shows "stringMatch (p @ w1 @ should @ w2 @ be @ w3 @ v) styleRegex = Some [p, v]"
proof -
  have ls: "map toLowerChar should = map toLowerChar ''should''"
    using should by (simp add: toLowerCase_def toLowerChar_def isUpperCase_def)
  have lb: "map toLowerChar be = map toLowerChar ''be''"
    using be by (simp add: toLowerCase_def toLowerChar_def isUpperCase_def)
  have s0: "\<not> isWhiteSpace (toLowerChar CHR ''s'')" "\<not> isWhiteSpace (toLowerChar CHR ''b'')"
    by (simp_all add: isWhiteSpace_def toLowerChar_def isUpperCase_def)
  have 7: "rxm [Cap dot OneOrMore] (v @ []) = Some ([v], [])"
    by (rule rxm_Cap_plus) (use v in \<open>simp_all add: dot_def\<close>)
  have 6: "rxm [Ch isWhiteSpace OneOrMore, Cap dot OneOrMore] (w3 @ v) = Some ([v], [])"
    by (rule rxm_Ch_plus) (use w3 v 7 in simp_all)
  have 5: "rxm (litI ''be'' @ [Ch isWhiteSpace OneOrMore, Cap dot OneOrMore]) (be @ w3 @ v) =
           Some ([v], [])"
    by (rule rxm_litI [OF lb 6])
  have 4: "rxm (Ch isWhiteSpace OneOrMore # litI ''be'' @
                [Ch isWhiteSpace OneOrMore, Cap dot OneOrMore]) (w2 @ be @ w3 @ v) =
           Some ([v], [])"
    by (rule rxm_Ch_plus) (use w2 5 word_start [OF lb s0(2)] in simp_all)
  have 3: "rxm (litI ''should'' @ Ch isWhiteSpace OneOrMore # litI ''be'' @
                [Ch isWhiteSpace OneOrMore, Cap dot OneOrMore]) (should @ w2 @ be @ w3 @ v) =
           Some ([v], [])"
    by (rule rxm_litI [OF ls 4])
  have 2: "rxm (Ch isWhiteSpace OneOrMore # litI ''should'' @ Ch isWhiteSpace OneOrMore #
                litI ''be'' @ [Ch isWhiteSpace OneOrMore, Cap dot OneOrMore])
             (w1 @ should @ w2 @ be @ w3 @ v) = Some ([v], [])"
    by (rule rxm_Ch_plus) (use w1 3 word_start [OF ls s0(1)] in simp_all)
  have h: "hd (w1 @ should @ w2 @ be @ w3 @ v) = hd w1" using w1 by simp
  have 1: "rxm styleRegex (p @ w1 @ should @ w2 @ be @ w3 @ v) = Some ([p, v], [])"
    unfolding styleRegex_def append_Cons append_Nil
    by (rule rxm_Cap_plus)
       (use p w1 2 h whiteSpace_not_alphaDash [of "hd w1"] in \<open>simp_all del: hd_append2\<close>)
  then show ?thesis by (simp add: stringMatch_def rxSearch.simps)
qed

lemma trim_id:
  assumes "s \<noteq> []" and "\<not> isWhiteSpace (hd s)" and "\<not> isWhiteSpace (last s)"
  shows "trim s = s"
proof -
  from assms(1,2) have a: "dropWhile isWhiteSpace s = s" by (cases s) auto
  from assms(1,3) have "dropWhile isWhiteSpace (rev s) = rev s"
    by (cases "rev s") (auto simp: last_rev [symmetric] simp del: last_rev)
  with a show ?thesis by (simp add: trim_def)
qed

lemma checkStyle_result:
  assumes "toLowerCase (action sc) = ''check_style''"
    and "call (Query (target sc)) (querySelector d (target sc)) s = (Inr (Some el), s1)"
    and "stringMatch (expectedResult sc) styleRegex = Some [property, expectedValue]"
    and "call (ComputedStyle (trim property)) (computedStyle d el (trim property)) s1 =
           (Inr actual, s2)"
  shows "executeScenario d sc s =
     (\<lparr>scenario = sc,
       passed = (normalizeColorValue (trim actual) = normalizeColorValue (trim expectedValue)),
       error = (if normalizeColorValue (trim actual) = normalizeColorValue (trim expectedValue)
                then None
                else Some (''Expected '' @ property @ '' to be '' @ [dq] @ expectedValue @ [dq] @
                           '', but got '' @ [dq] @ actual @ [dq])),
       actualValue = Some (trim actual), screenshot = None\<rparr>, s2)"
  using assms by (simp add: executeScenario_def dispatch_def checkStyle_def Let_def)

section \<open>The loop, scenario by scenario\<close>

text \<open>
  The loop returns, for every index, the result of \<open>executeScenario\<close> on the scenario at
  that index in the session the earlier scenarios have left; nothing a scenario does ends
  the loop. Once the page is open, the outcome of the run is the results of the loop,
  unless closing the browser throws.
\<close>

lemma sessionBefore_0: "sessionBefore d scs s 0 = s"
  by (simp add: sessionBefore_def)

lemma sessionBefore_Cons_Suc:
  "sessionBefore d (sc # rest) s (Suc i) = sessionBefore d rest (snd (executeScenario d sc s)) i"
  by (simp add: sessionBefore_def)

lemma runScenarios_eq:
  "runScenarios d scs acc s =
     (acc @ map (\<lambda>i. fst (executeScenario d (scs ! i) (sessionBefore d scs s i))) [0..<length scs],
      sessionBefore d scs s (length scs))"
proof (induction scs arbitrary: acc s)
  case Nil
  then show ?case by (simp add: sessionBefore_0)
next
  case (Cons sc rest)
  obtain r s1 where e: "executeScenario d sc s = (r, s1)"
    by (cases "executeScenario d sc s")
  have "map (\<lambda>i. fst (executeScenario d ((sc # rest) ! i) (sessionBefore d (sc # rest) s i)))
          [0..<length (sc # rest)] =
        r # map (\<lambda>i. fst (executeScenario d (rest ! i) (sessionBefore d rest s1 i)))
              [0..<length rest]"
    using e by (simp add: map_upt_Suc sessionBefore_0 sessionBefore_Cons_Suc del: upt_Suc)
  with e Cons.IH [of "acc @ [r]" s1] show ?case
    by (simp add: sessionBefore_Cons_Suc del: upt_Suc)
qed

lemma runScenarios_length: "length (fst (runScenarios d scs [] s)) = length scs"
  by (simp add: runScenarios_eq)

lemma runScenarios_at:
  "i < length scs \<Longrightarrow>
   fst (runScenarios d scs [] s) ! i = fst (executeScenario d (scs ! i) (sessionBefore d scs s i))"
  by (simp add: runScenarios_eq)

lemma runTests_after_open:
  assumes "call Launch (launch d) s = (Inr (), s1)" and "openPage d portalUrl s1 = (Inr (), s2)"
  shows "fst (runTests d portalUrl scenarios s) =
           (case fst (call Close (close d) (snd (runScenarios d scenarios [] s2))) of
              Inl e \<Rightarrow> Inl e
            | Inr _ \<Rightarrow> Inr (fst (runScenarios d scenarios [] s2)))"
  using assms by (simp add: runTests_def openAndRun_def rethrow_def split: prod.splits sum.splits)

lemma sessionBefore_Suc:
  "i < length scs \<Longrightarrow>
   sessionBefore d scs s (Suc i) = snd (executeScenario d (scs ! i) (sessionBefore d scs s i))"
  by (simp add: sessionBefore_def take_Suc_conv_app_nth)

lemma runScenarios_snd: "snd (runScenarios d scs [] s) = sessionBefore d scs s (length scs)"
  by (simp add: runScenarios_eq)

section \<open>The counting browser runs as the browser it wraps\<close>

lemma call_uncounted:
  "call ev (uncounted f) (withCount n s) = (case call ev f s of (r, s') \<Rightarrow> (r, withCount n s'))"
  by (simp add: call_def uncounted_def withCount_def split: prod.splits)

lemma countingCloses_simps:
  "launch (countingCloses d) = uncounted (launch d)"
  "newPage (countingCloses d) = uncounted (newPage d)"
  "setViewport (countingCloses d) w h = uncounted (setViewport d w h)"
  "goto (countingCloses d) url = uncounted (goto d url)"
  "querySelector (countingCloses d) sel = uncounted (querySelector d sel)"
  "computedStyle (countingCloses d) el prop = uncounted (computedStyle d el prop)"
  "textContent (countingCloses d) el = uncounted (textContent d el)"
  "click (countingCloses d) el = uncounted (click d el)"
  "hover (countingCloses d) el = uncounted (hover d el)"
  "typeText (countingCloses d) el v = uncounted (typeText d el v)"
  by (simp_all add: countingCloses_def)

lemma call_close_counting:
  "call Close (close (countingCloses d)) (withCount n s) =
     (case call Close (close d) s of (r, s') \<Rightarrow> (r, withCount (Suc n) s'))"
  by (simp add: call_def countingCloses_def withCount_def split: prod.splits)

lemmas counting_splits = prod.split sum.split option.split list.split

lemma checkStyle_counting:
  "checkStyle (countingCloses d) sc (withCount n s) =
     (case checkStyle d sc s of (r, s') \<Rightarrow> (r, withCount n s'))"
  by (simp add: checkStyle_def Let_def countingCloses_simps call_uncounted split: counting_splits)

lemma clickElement_counting:
  "clickElement (countingCloses d) sc (withCount n s) =
     (case clickElement d sc s of (r, s') \<Rightarrow> (r, withCount n s'))"
  by (simp add: clickElement_def Let_def countingCloses_simps call_uncounted split: counting_splits)

lemma checkText_counting:
  "checkText (countingCloses d) sc (withCount n s) =
     (case checkText d sc s of (r, s') \<Rightarrow> (r, withCount n s'))"
  by (simp add: checkText_def Let_def countingCloses_simps call_uncounted split: counting_splits)

lemma checkVisibility_counting:
  "checkVisibility (countingCloses d) sc (withCount n s) =
     (case checkVisibility d sc s of (r, s') \<Rightarrow> (r, withCount n s'))"
  by (simp add: checkVisibility_def Let_def countingCloses_simps call_uncounted
           split: counting_splits)

lemma navigate_counting:
  "navigate (countingCloses d) sc (withCount n s) =
     (case navigate d sc s of (r, s') \<Rightarrow> (r, withCount n s'))"
  by (simp add: navigate_def Let_def countingCloses_simps call_uncounted split: counting_splits)

lemma hoverElement_counting:
  "hoverElement (countingCloses d) sc (withCount n s) =
     (case hoverElement d sc s of (r, s') \<Rightarrow> (r, withCount n s'))"
  by (simp add: hoverElement_def Let_def countingCloses_simps call_uncounted split: counting_splits)

lemma fillInput_counting:
  "fillInput (countingCloses d) sc (withCount n s) =
     (case fillInput d sc s of (r, s') \<Rightarrow> (r, withCount n s'))"
  by (simp add: fillInput_def Let_def countingCloses_simps call_uncounted split: counting_splits)

lemma dispatch_counting:
  "dispatch (countingCloses d) sc (withCount n s) =
     (case dispatch d sc s of (r, s') \<Rightarrow> (r, withCount n s'))"
  by (simp add: dispatch_def Let_def checkStyle_counting clickElement_counting checkText_counting
        checkVisibility_counting navigate_counting hoverElement_counting fillInput_counting)

lemma executeScenario_counting:
  "executeScenario (countingCloses d) sc (withCount n s) =
     (case executeScenario d sc s of (r, s') \<Rightarrow> (r, withCount n s'))"
  by (simp add: executeScenario_def dispatch_counting split: prod.split sum.split)

lemma runScenarios_counting:
  "runScenarios (countingCloses d) scs acc (withCount n s) =
     (case runScenarios d scs acc s of (rs, s') \<Rightarrow> (rs, withCount n s'))"
proof (induction scs arbitrary: acc s)
  case Nil
  then show ?case by simp
next
  case (Cons sc rest)
  then show ?case by (simp add: executeScenario_counting split: prod.split)
qed

lemma openPage_counting:
  "openPage (countingCloses d) u (withCount n s) =
     (case openPage d u s of (r, s') \<Rightarrow> (r, withCount n s'))"
  by (simp add: openPage_def countingCloses_simps call_uncounted split: counting_splits)

lemma openAndRun_counting:
  "openAndRun (countingCloses d) u scs (withCount n s) =
     (case openAndRun d u scs s of (r, s') \<Rightarrow> (r, withCount n s'))"
  by (simp add: openAndRun_def openPage_counting runScenarios_counting split: counting_splits)

lemma runTests_counting:
  "runTests (countingCloses d) u scs (withCount n s) =
     (case runTests d u scs s of
        (r, s') \<Rightarrow> (r, withCount (case fst (launch d (world s)) of Inl _ \<Rightarrow> n | Inr _ \<Rightarrow> Suc n) s'))"
proof (cases "call Launch (launch d) s")
  case (Pair r s1)
  then have l: "fst (launch d (world s)) = r" by (auto simp: call_def split: prod.splits)
  show ?thesis
  proof (cases r)
    case (Inl e)
    with Pair l show ?thesis
      by (simp add: runTests_def countingCloses_simps call_uncounted)
  next
    case (Inr u)
    with Pair l show ?thesis
      by (simp add: runTests_def countingCloses_simps call_uncounted openAndRun_counting
            call_close_counting split: counting_splits)
  qed
qed

section \<open>Results of a run\<close>

text \<open>
  C1. A run of \<open>runTests\<close> that returns (it does not end in an error thrown to the
  caller) returns as many results as it was given scenarios, and the result at index
  \<open>i\<close> carries the scenario at index \<open>i\<close>.
\<close>

theorem runTests_results_in_order:
  assumes "fst (runTests d portalUrl scenarios s) = Inr results"
  shows "length results = length scenarios \<and>
         (\<forall>i<length scenarios. scenario (results ! i) = scenarios ! i)"
proof -
  from runTests_nth [OF assms] have
    len: "length results = length scenarios" and
    nth: "\<forall>i<length scenarios. \<exists>si. results ! i = fst (executeScenario d (scenarios ! i) si)"
    by auto
  have "scenario (results ! i) = scenarios ! i" if "i < length scenarios" for i
  proof -
    from nth that obtain si where
      "results ! i = fst (executeScenario d (scenarios ! i) si)" by blast
    then show ?thesis by (simp add: executeScenario_scenario)
  qed
  with len show ?thesis by blast
qed

theorem runTests_results_in_order_witness:
  "fst (runTests demoBrowser portal threeSteps (start 100)) =
     Inr (projr (fst (runTests demoBrowser portal threeSteps (start 100)))) \<and>
   length (projr (fst (runTests demoBrowser portal threeSteps (start 100)))) = 3 \<and>
   scenario (projr (fst (runTests demoBrowser portal threeSteps (start 100))) ! 0) =
     step ''click'' ''#missing'' [] \<and>
   scenario (projr (fst (runTests demoBrowser portal threeSteps (start 100))) ! 1) =
     step ''click'' ''#btn'' [] \<and>
   scenario (projr (fst (runTests demoBrowser portal threeSteps (start 100))) ! 2) =
     step ''check_text'' ''h1'' ''text should be Hello''"
proof -
  have run: "fst (runTests demoBrowser portal threeSteps (start 100)) =
     Inr (projr (fst (runTests demoBrowser portal threeSteps (start 100))))"
    by code_simp
  have len: "length threeSteps = 3"
    and nth: "threeSteps ! 0 = step ''click'' ''#missing'' []"
             "threeSteps ! 1 = step ''click'' ''#btn'' []"
             "threeSteps ! 2 = step ''check_text'' ''h1'' ''text should be Hello''"
    by (simp_all add: threeSteps_def)
  from runTests_results_in_order [OF run] have
    "length (projr (fst (runTests demoBrowser portal threeSteps (start 100)))) = 3"
    "\<forall>i<3. scenario (projr (fst (runTests demoBrowser portal threeSteps (start 100))) ! i) =
            threeSteps ! i"
    by (simp_all add: len)
  with run nth show ?thesis by simp
qed

section \<open>Release of the browser\<close>

text \<open>
  C2. When the launch returned a browser, the run calls \<open>close\<close> on it exactly once, as
  its last call, whether the run returns results or ends in an error. With a browser
  that counts its closes, the run is the run of the browser it wraps and the counter has
  gone up by one; the state the run leaves is the one \<open>close d\<close> returns on the state the
  \<open>try\<close> block has left; and the trace of calls has one more \<open>Close\<close>, at its end. The
  handlers never close the browser, and every error they meet is caught before the
  \<open>finally\<close> block runs.
\<close>

theorem browser_closed_exactly_once:
  assumes "fst (launch d (world s)) = Inr ()"
  shows "runTests (countingCloses d) portalUrl scenarios (withCount n s) =
           (case runTests d portalUrl scenarios s of (r, s') \<Rightarrow> (r, withCount (Suc n) s')) \<and>
         world (snd (runTests d portalUrl scenarios s)) =
           snd (close d (world (snd (openAndRun d portalUrl scenarios
                                       (snd (call Launch (launch d) s)))))) \<and>
         count_list (trace (snd (runTests d portalUrl scenarios s))) Close =
           count_list (trace s) Close + 1 \<and>
         last (trace (snd (runTests d portalUrl scenarios s))) = Close"
proof -
  obtain w1 where l: "launch d (world s) = (Inr (), w1)"
    using assms by (cases "launch d (world s)") auto
  define s1 where "s1 = \<lparr>world = w1, trace = trace s @ [Launch]\<rparr>"
  have c1: "call Launch (launch d) s = (Inr (), s1)"
    by (simp add: call_def l s1_def)
  obtain r s2 where o: "openAndRun d portalUrl scenarios s1 = (r, s2)"
    by (cases "openAndRun d portalUrl scenarios s1")
  obtain rc s3 where c: "call Close (close d) s2 = (rc, s3)"
    by (cases "call Close (close d) s2")
  have t3: "trace s3 = trace s2 @ [Close]" and w3: "world s3 = snd (close d (world s2))"
    using call_eqD [OF c] by simp_all
  have "count_list (trace s2) Close = count_list (trace s1) Close"
    by (rule openAndRun_closes [OF o])
  also have "\<dots> = count_list (trace s) Close"
    by (simp add: s1_def)
  finally have n: "count_list (trace s3) Close = count_list (trace s) Close + 1"
    by (simp add: t3)
  have f: "snd (runTests d portalUrl scenarios s) = s3"
    by (simp add: runTests_def c1 o c split: sum.splits)
  have "runTests (countingCloses d) portalUrl scenarios (withCount n s) =
           (case runTests d portalUrl scenarios s of (r, s') \<Rightarrow> (r, withCount (Suc n) s'))"
    by (simp add: runTests_counting assms)
  with n t3 w3 f show ?thesis by (simp add: c1 o)
qed

text \<open>
  Three runs on the counting demo browser: one answers every call and returns results,
  one loses the browser during a click and returns results all the same, one loses it
  during the first navigation and ends in an error. Each leaves the counter at 1.
\<close>

theorem browser_closed_exactly_once_witness:
  "fst (runTests (countingCloses demoBrowser) portal threeSteps (withCount 0 (start 100))) =
     Inr (projr (fst (runTests demoBrowser portal threeSteps (start 100)))) \<and>
   snd (world (snd (runTests (countingCloses demoBrowser) portal threeSteps
                      (withCount 0 (start 100))))) = 1 \<and>
   map error (projr (fst (runTests (countingCloses demoBrowser) portal clickAndCheck
                            (withCount 0 (start 5))))) =
     [Some ''Protocol error: Target closed'', Some ''Protocol error: Target closed''] \<and>
   snd (world (snd (runTests (countingCloses demoBrowser) portal clickAndCheck
                      (withCount 0 (start 5))))) = 1 \<and>
   fst (runTests (countingCloses demoBrowser) portal threeSteps (withCount 0 (start 3))) =
     Inl (Error ''Browser automation failed: Protocol error: Target closed'') \<and>
   snd (world (snd (runTests (countingCloses demoBrowser) portal threeSteps
                      (withCount 0 (start 3))))) = 1 \<and>
   count_list (trace (snd (runTests demoBrowser portal threeSteps (start 3)))) Close = 1"
proof -
  have l: "fst (launch demoBrowser (world (start 100))) = Inr ()"
    "fst (launch demoBrowser (world (start 5))) = Inr ()"
    "fst (launch demoBrowser (world (start 3))) = Inr ()"
    by code_simp+
  have t: "count_list (trace (start 3)) Close = 0" by code_simp
  have r1: "fst (runTests demoBrowser portal threeSteps (start 100)) =
     Inr (projr (fst (runTests demoBrowser portal threeSteps (start 100))))"
    by code_simp
  have r2: "map error (projr (fst (runTests demoBrowser portal clickAndCheck (start 5)))) =
     [Some ''Protocol error: Target closed'', Some ''Protocol error: Target closed'']"
    by code_simp
  have r3: "fst (runTests demoBrowser portal threeSteps (start 3)) =
     Inl (Error ''Browser automation failed: Protocol error: Target closed'')"
    by code_simp
  have w: "\<And>k x. snd (world (withCount k x)) = k" by (simp add: withCount_def)
  from browser_closed_exactly_once [OF l(1), of portal threeSteps 0]
  have a: "fst (runTests (countingCloses demoBrowser) portal threeSteps (withCount 0 (start 100))) =
             fst (runTests demoBrowser portal threeSteps (start 100))"
          "snd (world (snd (runTests (countingCloses demoBrowser) portal threeSteps
                      (withCount 0 (start 100))))) = 1"
    by (simp_all add: w split: prod.splits)
  from browser_closed_exactly_once [OF l(2), of portal clickAndCheck 0]
  have b: "fst (runTests (countingCloses demoBrowser) portal clickAndCheck (withCount 0 (start 5))) =
             fst (runTests demoBrowser portal clickAndCheck (start 5))"
          "snd (world (snd (runTests (countingCloses demoBrowser) portal clickAndCheck
                      (withCount 0 (start 5))))) = 1"
    by (simp_all add: w split: prod.splits)
  from browser_closed_exactly_once [OF l(3), of portal threeSteps 0] t
  have c: "fst (runTests (countingCloses demoBrowser) portal threeSteps (withCount 0 (start 3))) =
             fst (runTests demoBrowser portal threeSteps (start 3))"
          "snd (world (snd (runTests (countingCloses demoBrowser) portal threeSteps
                      (withCount 0 (start 3))))) = 1"
          "count_list (trace (snd (runTests demoBrowser portal threeSteps (start 3)))) Close = 1"
    by (simp_all add: w split: prod.splits)
  from a b c r1 r2 r3 show ?thesis by simp
qed

section \<open>The colour normalizer\<close>

text \<open>
  The result depends on the argument only through its trimmed lower-case form.
\<close>

lemma normalizeColorValue_cong:
  "trim (toLowerCase x) = trim (toLowerCase y) \<Longrightarrow> normalizeColorValue x = normalizeColorValue y"
  by (simp add: normalizeColorValue_def)

lemma yellow_forms:
  "normalizeColorValue ''yellow'' = JString ''rgb(255, 255, 0)''"
  "normalizeColorValue ''#FFFF00'' = JString ''rgb(255, 255, 0)''"
  "normalizeColorValue ''#ffff00'' = JString ''rgb(255, 255, 0)''"
  "normalizeColorValue ''#ff0'' = JString ''rgb(255, 255, 0)''"
  "normalizeColorValue ''rgb(255,255,0)'' = JString ''rgb(255, 255, 0)''"
  "normalizeColorValue ''rgba(255,255,0,0.5)'' = JString ''rgb(255, 255, 0)''"
  by code_simp+

lemma yellow_forms_lower:
  "trim (toLowerCase ''yellow'') = ''yellow''"
  "trim (toLowerCase ''#ffff00'') = ''#ffff00''"
  "trim (toLowerCase ''#ff0'') = ''#ff0''"
  "trim (toLowerCase ''rgb(255,255,0)'') = ''rgb(255,255,0)''"
  "trim (toLowerCase ''rgba(255,255,0,0.5)'') = ''rgba(255,255,0,0.5)''"
  by code_simp+

text \<open>
  C9. The five spellings of yellow, a named colour, six- and three-digit hexadecimal,
  \<open>rgb(...)\<close> and \<open>rgba(...)\<close> with its alpha dropped, all normalize to
  \<open>rgb(255, 255, 0)\<close>, and so does every string that is one of them up to letter case
  and white space around it.
\<close>

theorem normalizeColorValue_yellow:
  "normalizeColorValue ''yellow'' = JString ''rgb(255, 255, 0)'' \<and>
   normalizeColorValue ''#FFFF00'' = JString ''rgb(255, 255, 0)'' \<and>
   normalizeColorValue ''#ff0'' = JString ''rgb(255, 255, 0)'' \<and>
   normalizeColorValue ''rgb(255,255,0)'' = JString ''rgb(255, 255, 0)'' \<and>
   normalizeColorValue ''rgba(255,255,0,0.5)'' = JString ''rgb(255, 255, 0)'' \<and>
   (trim (toLowerCase x) \<in>
      {''yellow'', ''#ffff00'', ''#ff0'', ''rgb(255,255,0)'', ''rgba(255,255,0,0.5)''} \<longrightarrow>
    normalizeColorValue x = JString ''rgb(255, 255, 0)'')"
proof (intro conjI impI)
  assume "trim (toLowerCase x) \<in>
      {''yellow'', ''#ffff00'', ''#ff0'', ''rgb(255,255,0)'', ''rgba(255,255,0,0.5)''}"
  then consider
      "trim (toLowerCase x) = trim (toLowerCase ''yellow'')"
    | "trim (toLowerCase x) = trim (toLowerCase ''#ffff00'')"
    | "trim (toLowerCase x) = trim (toLowerCase ''#ff0'')"
    | "trim (toLowerCase x) = trim (toLowerCase ''rgb(255,255,0)'')"
    | "trim (toLowerCase x) = trim (toLowerCase ''rgba(255,255,0,0.5)'')"
    unfolding yellow_forms_lower by blast
  then show "normalizeColorValue x = JString ''rgb(255, 255, 0)''"
    by cases (simp_all only: normalizeColorValue_cong [of x] yellow_forms)
qed (rule yellow_forms)+

theorem normalizeColorValue_yellow_witness:
  "normalizeColorValue ''  Yellow '' = JString ''rgb(255, 255, 0)'' \<and>
   normalizeColorValue '' #Ff0'' = JString ''rgb(255, 255, 0)'' \<and>
   normalizeColorValue ''RGB(255,255,0) '' = JString ''rgb(255, 255, 0)'' \<and>
   normalizeColorValue '' RGBA(255,255,0,0.5)'' = JString ''rgb(255, 255, 0)''"
proof -
  have "trim (toLowerCase ''  Yellow '') \<in>
      {''yellow'', ''#ffff00'', ''#ff0'', ''rgb(255,255,0)'', ''rgba(255,255,0,0.5)''}"
    "trim (toLowerCase '' #Ff0'') \<in>
      {''yellow'', ''#ffff00'', ''#ff0'', ''rgb(255,255,0)'', ''rgba(255,255,0,0.5)''}"
    "trim (toLowerCase ''RGB(255,255,0) '') \<in>
      {''yellow'', ''#ffff00'', ''#ff0'', ''rgb(255,255,0)'', ''rgba(255,255,0,0.5)''}"
    "trim (toLowerCase '' RGBA(255,255,0,0.5)'') \<in>
      {''yellow'', ''#ffff00'', ''#ff0'', ''rgb(255,255,0)'', ''rgba(255,255,0,0.5)''}"
    by code_simp+
  with normalizeColorValue_yellow [of "''  Yellow ''"] normalizeColorValue_yellow [of "'' #Ff0''"]
       normalizeColorValue_yellow [of "''RGB(255,255,0) ''"]
       normalizeColorValue_yellow [of "'' RGBA(255,255,0,0.5)''"]
  show ?thesis by blast
qed

text \<open>
  C8. Idempotence fails on a value that starts with \<open>#\<close> and has three characters that
  are not hexadecimal digits: \<open>parseInt\<close> gives NaN, the result is
  \<open>rgb(NaN, NaN, NaN)\<close>, and normalizing that once more lower-cases it.
\<close>

theorem normalizeColorValue_bad_hex:
  "normalizeColorValue ''#xyz'' = JString ''rgb(NaN, NaN, NaN)'' \<and>
   normalizeColorValue ''rgb(NaN, NaN, NaN)'' = JString ''rgb(nan, nan, nan)''"
  by code_simp

section \<open>check_text\<close>

text \<open>
  C7. The lazy group \<open>(.+?)\<close> of the check_text pattern matches one character and the
  pattern ends there, so the replacement removes the words and the opening quote and
  keeps everything after the first character of the value, the closing quote included.
  For \<open>text should contain "Hello"\<close> the expected literal is \<open>Hello"\<close>, and the check
  fails on an element whose text is Hello.
\<close>

theorem checkText_keeps_closing_quote:
  "stringReplace1 quotedHello textRegex = ''Hello'' @ [dq] \<and>
   textContent demoBrowser ''h1'' 1 = (Inr (Some ''Hello''), 0) \<and>
   fst (runTests demoBrowser portal [step ''check_text'' ''h1'' quotedHello] (start 100)) =
     Inr [\<lparr>scenario = step ''check_text'' ''h1'' quotedHello,
           passed = False,
           error = Some (''Expected text to contain '' @ [dq] @ ''Hello'' @ [dq] @ [dq] @
                         '', but got '' @ [dq] @ ''Hello'' @ [dq]),
           actualValue = Some ''Hello'',
           screenshot = None\<rparr>]"
  by code_simp

section \<open>Failures of one scenario\<close>




section \<open>Errors that end the run\<close>




section \<open>check_style\<close>

text \<open>
  C5. For a check_style scenario whose expectation reads \<open><property> should be <value>\<close>
  (the two words in any letter case, runs of white space between the parts), whose target
  resolves to an element and whose computed style is read without an error: the pattern
  captures the property and the value, the computed value of that property is read, and
  the scenario passes exactly when the normalized computed value equals the normalized
  expected value; the reported actual value is the trimmed computed value.
\<close>

theorem checkStyle_compares_normalized_values:
  assumes "toLowerCase (action sc) = ''check_style''"
    and "expectedResult sc = property @ gap1 @ should @ gap2 @ be @ gap3 @ expectedValue"
    and "property \<noteq> []" and "\<forall>x\<in>set property. alphaDashI x"
    and "gap1 \<noteq> []" and "\<forall>x\<in>set gap1. isWhiteSpace x"
    and "toLowerCase should = ''should''"
    and "gap2 \<noteq> []" and "\<forall>x\<in>set gap2. isWhiteSpace x"
    and "toLowerCase be = ''be''"
    and "gap3 \<noteq> []" and "\<forall>x\<in>set gap3. isWhiteSpace x"
    and "expectedValue \<noteq> []" and "\<not> isWhiteSpace (hd expectedValue)"
    and "\<forall>x\<in>set expectedValue. \<not> isLineTerminator x"
    and "call (Query (target sc)) (querySelector d (target sc)) s = (Inr (Some el), s1)"
    and "call (ComputedStyle property) (computedStyle d el property) s1 = (Inr actual, s2)"
  shows "stringMatch (expectedResult sc) styleRegex = Some [property, expectedValue] \<and>
         snd (executeScenario d sc s) = s2 \<and>
         passed (fst (executeScenario d sc s)) =
           (normalizeColorValue (trim actual) = normalizeColorValue (trim expectedValue)) \<and>
         actualValue (fst (executeScenario d sc s)) = Some (trim actual)"
proof -
  have m: "stringMatch (expectedResult sc) styleRegex = Some [property, expectedValue]"
    unfolding assms(2) by (rule styleRegex_grammar) (use assms in simp_all)
  have "alphaDashI (hd property)" "alphaDashI (last property)"
    using assms(3,4) by simp_all
  then have "\<not> isWhiteSpace (hd property)" "\<not> isWhiteSpace (last property)"
    using whiteSpace_not_alphaDash by blast+
  with assms(3) have t: "trim property = property" by (simp add: trim_id)
  from checkStyle_result [OF assms(1) assms(16) m] assms(17) t show ?thesis
    using m by simp
qed

text \<open>
  The button of the demo page has the computed background colour \<open>rgb(255, 255, 0)\<close>,
  and the expectation \<open>background-color should be yellow\<close> passes on it.
\<close>

theorem checkStyle_compares_normalized_values_witness:
  "executeScenario demoBrowser yellowButton (start 2) =
     (\<lparr>scenario = yellowButton, passed = True, error = None,
       actualValue = Some ''rgb(255, 255, 0)'', screenshot = None\<rparr>,
      \<lparr>world = 0, trace = [Query ''#btn'', ComputedStyle ''background-color'']\<rparr>)"
proof -
  let ?q = "call (Query (target yellowButton)) (querySelector demoBrowser (target yellowButton))
              (start 2)"
  let ?s2 = "\<lparr>world = 0, trace = [Query ''#btn'', ComputedStyle ''background-color'']\<rparr> :: nat session"
  have 1: "toLowerCase (action yellowButton) = ''check_style''" by code_simp
  have 2: "expectedResult yellowButton =
     ''background-color'' @ '' '' @ ''should'' @ '' '' @ ''be'' @ '' '' @ ''yellow''"
    by code_simp
  have 3: "\<forall>x\<in>set ''background-color''. alphaDashI x" by code_simp
  have 4: "\<forall>x\<in>set '' ''. isWhiteSpace x" by code_simp
  have 5: "toLowerCase ''should'' = ''should''" "toLowerCase ''be'' = ''be''" by code_simp+
  have 6: "\<not> isWhiteSpace (hd ''yellow'')" "\<forall>x\<in>set ''yellow''. \<not> isLineTerminator x"
    by code_simp+
  have 7: "?q = (Inr (Some ''#btn''), snd ?q)" by code_simp
  have 8: "call (ComputedStyle ''background-color'')
             (computedStyle demoBrowser ''#btn'' ''background-color'') (snd ?q) =
           (Inr ''rgb(255, 255, 0)'', ?s2)" by code_simp
  have 9: "normalizeColorValue (trim ''rgb(255, 255, 0)'') = normalizeColorValue (trim ''yellow'')"
    "trim ''rgb(255, 255, 0)'' = ''rgb(255, 255, 0)''"
    by code_simp+
  have 10: "scenario (fst (executeScenario demoBrowser yellowButton (start 2))) = yellowButton"
    "error (fst (executeScenario demoBrowser yellowButton (start 2))) = None"
    "screenshot (fst (executeScenario demoBrowser yellowButton (start 2))) = None"
    by code_simp+
  from checkStyle_compares_normalized_values [OF 1 2 _ 3 _ 4 5(1) _ 4 5(2) _ 4 _ 6 7 8] 9
  have "snd (executeScenario demoBrowser yellowButton (start 2)) = ?s2"
    "passed (fst (executeScenario demoBrowser yellowButton (start 2))) = True"
    "actualValue (fst (executeScenario demoBrowser yellowButton (start 2))) = Some ''rgb(255, 255, 0)''"
    by simp_all
  with 10 show ?thesis
    by (cases "executeScenario demoBrowser yellowButton (start 2)") auto
qed

section \<open>Expectations that do not match their pattern\<close>

text \<open>
  C6, as the claim states it. The expectation \<open>Hello\<close> does not match the check_text
  pattern; the handler reports no parse failure, it takes the whole expectation as the
  expected text and the scenario passes on the heading of the demo page.
\<close>

theorem unmatched_text_expectation_passes:
  "stringMatch ''Hello'' textRegex = None \<and>
   fst (runTests demoBrowser portal [step ''check_text'' ''h1'' ''Hello''] (start 100)) =
     Inr [\<lparr>scenario = step ''check_text'' ''h1'' ''Hello'', passed = True, error = None,
           actualValue = Some ''Hello'', screenshot = None\<rparr>]"
  by code_simp

text \<open>
  C6, amended. Only check_style has a parse failure: when its target resolves and its
  pattern does not match, the result has \<open>passed\<close> false and the error
  \<open>Could not parse expected result format. Use: "property-name should be value"\<close>. The run
  is not ended by it: the loop goes on with the next scenario from the session the query
  has left, the loop returns one result for every scenario with this one at its index,
  and once the page is open the run returns the results of the loop, unless closing the
  browser throws. check_text, navigate and fill_input have no branch for a parse
  failure: an expectation that does not match their pattern is used as it is, as the
  expected text once the element and its text are read, as the address of the navigation,
  and as the typed value once the target resolves.
\<close>

theorem parse_failure_only_in_checkStyle:
  "(toLowerCase (action sc) = ''check_style'' \<and>
    call (Query (target sc)) (querySelector d (target sc)) s = (Inr (Some el), s1) \<and>
    stringMatch (expectedResult sc) styleRegex = None \<longrightarrow>
      executeScenario d sc s =
        (\<lparr>scenario = sc, passed = False,
          error = Some (''Could not parse expected result format. Use: '' @ [dq] @
                        ''property-name should be value'' @ [dq]),
          actualValue = None, screenshot = None\<rparr>, s1) \<and>
      runScenarios d (sc # rest) acc s =
        runScenarios d rest
          (acc @ [\<lparr>scenario = sc, passed = False,
                   error = Some (''Could not parse expected result format. Use: '' @ [dq] @
                                 ''property-name should be value'' @ [dq]),
                   actualValue = None, screenshot = None\<rparr>]) s1) \<and>
   (i < length scenarios \<and>
    toLowerCase (action (scenarios ! i)) = ''check_style'' \<and>
    call (Query (target (scenarios ! i))) (querySelector d (target (scenarios ! i)))
      (sessionBefore d scenarios s0 i) = (Inr (Some el), s1) \<and>
    stringMatch (expectedResult (scenarios ! i)) styleRegex = None \<longrightarrow>
      length (fst (runScenarios d scenarios [] s0)) = length scenarios \<and>
      fst (runScenarios d scenarios [] s0) ! i =
        \<lparr>scenario = scenarios ! i, passed = False,
         error = Some (''Could not parse expected result format. Use: '' @ [dq] @
                       ''property-name should be value'' @ [dq]),
         actualValue = None, screenshot = None\<rparr> \<and>
      sessionBefore d scenarios s0 (Suc i) = s1) \<and>
   (call Launch (launch d) s4 = (Inr (), s5) \<and> openPage d portalUrl s5 = (Inr (), s0) \<longrightarrow>
      fst (runTests d portalUrl scenarios s4) =
        (case fst (call Close (close d) (snd (runScenarios d scenarios [] s0))) of
           Inl e' \<Rightarrow> Inl e'
         | Inr _ \<Rightarrow> Inr (fst (runScenarios d scenarios [] s0)))) \<and>
   (toLowerCase (action sc) = ''check_text'' \<and>
    stringMatch (expectedResult sc) textRegex = None \<and>
    call (Query (target sc)) (querySelector d (target sc)) s = (Inr (Some el), s1) \<and>
    call TextContent (textContent d el) s1 = (Inr actualText, s2) \<longrightarrow>
      executeScenario d sc s =
        (\<lparr>scenario = sc,
          passed = (case actualText of
                      None \<Rightarrow> False
                    | Some t \<Rightarrow> includesStr t (expectedResult sc) \<or> t = expectedResult sc),
          error = (if (case actualText of
                         None \<Rightarrow> False
                       | Some t \<Rightarrow> includesStr t (expectedResult sc) \<or> t = expectedResult sc)
                   then None
                   else Some (''Expected text to contain '' @ [dq] @ expectedResult sc @ [dq] @
                              '', but got '' @ [dq] @
                              (case actualText of None \<Rightarrow> ''null'' | Some t \<Rightarrow> t) @ [dq])),
          actualValue = Some (case actualText of None \<Rightarrow> [] | Some t \<Rightarrow> t),
          screenshot = None\<rparr>, s2)) \<and>
   (toLowerCase (action sc) = ''navigate'' \<and>
    stringMatch (expectedResult sc) navigateRegex = None \<longrightarrow>
      executeScenario d sc s =
        (case call (Goto (expectedResult sc)) (goto d (expectedResult sc)) s of
           (Inl e, s1) \<Rightarrow>
             (\<lparr>scenario = sc, passed = False, error = Some (message e), actualValue = None,
               screenshot = None\<rparr>, s1)
         | (Inr _, s1) \<Rightarrow>
             (\<lparr>scenario = sc, passed = True, error = None, actualValue = None,
               screenshot = None\<rparr>, s1))) \<and>
   (toLowerCase (action sc) = ''fill_input'' \<and>
    stringMatch (expectedResult sc) fillRegex = None \<and>
    call (Query (target sc)) (querySelector d (target sc)) s = (Inr (Some el), s1) \<longrightarrow>
      executeScenario d sc s =
        (case call (TypeText (expectedResult sc)) (typeText d el (expectedResult sc)) s1 of
           (Inl e, s2) \<Rightarrow>
             (\<lparr>scenario = sc, passed = False, error = Some (message e), actualValue = None,
               screenshot = None\<rparr>, s2)
         | (Inr _, s2) \<Rightarrow>
             (\<lparr>scenario = sc, passed = True, error = None, actualValue = None,
               screenshot = None\<rparr>, s2)))"
  apply (intro conjI impI)
  subgoal by (auto simp: executeScenario_parseFailure failed_def parseFailureMessage_def)
  subgoal by (auto simp: executeScenario_parseFailure failed_def parseFailureMessage_def)
  subgoal by (rule runScenarios_length)
  subgoal
    by (auto simp: runScenarios_at executeScenario_parseFailure failed_def
          parseFailureMessage_def)
  subgoal by (auto simp: sessionBefore_Suc executeScenario_parseFailure)
  subgoal by (auto dest: runTests_after_open)
  subgoal
    by (auto simp: stringReplace1_no_match executeScenario_def dispatch_def Let_def checkText_def)
  subgoal
    by (auto simp: stringReplace1_no_match executeScenario_def dispatch_def Let_def navigate_def
          failed_def succeeded_def split: prod.splits sum.splits)
  subgoal
    by (auto simp: stringReplace1_no_match executeScenario_def dispatch_def Let_def fillInput_def
          failed_def succeeded_def split: prod.splits sum.splits)
  done

text \<open>
  On the demo page: a run of a check_style scenario with the expectation
  \<open>yellow background\<close> followed by a click, and one scenario for each of the three other
  patterns with an expectation that does not match it.
\<close>

theorem parse_failure_only_in_checkStyle_witness:
  "fst (runTests demoBrowser portal styleThenClick (start 100)) =
     Inr [\<lparr>scenario = step ''check_style'' ''#btn'' ''yellow background'', passed = False,
           error = Some (''Could not parse expected result format. Use: '' @ [dq] @
                         ''property-name should be value'' @ [dq]),
           actualValue = None, screenshot = None\<rparr>,
          \<lparr>scenario = step ''click'' ''#btn'' [], passed = True, error = None,
           actualValue = None, screenshot = None\<rparr>] \<and>
   executeScenario demoBrowser (step ''check_text'' ''h1'' ''Hello'') (start 9) =
     (\<lparr>scenario = step ''check_text'' ''h1'' ''Hello'', passed = True, error = None,
       actualValue = Some ''Hello'', screenshot = None\<rparr>,
      \<lparr>world = 7, trace = [Query ''h1'', TextContent]\<rparr>) \<and>
   executeScenario demoBrowser (step ''navigate'' [] ''/settings'') (start 9) =
     (\<lparr>scenario = step ''navigate'' [] ''/settings'', passed = True, error = None,
       actualValue = None, screenshot = None\<rparr>,
      \<lparr>world = 8, trace = [Goto ''/settings'']\<rparr>) \<and>
   executeScenario demoBrowser (step ''fill_input'' ''#btn'' ''abc'') (start 9) =
     (\<lparr>scenario = step ''fill_input'' ''#btn'' ''abc'', passed = True, error = None,
       actualValue = None, screenshot = None\<rparr>,
      \<lparr>world = 7, trace = [Query ''#btn'', TypeText ''abc'']\<rparr>)"
proof -
  let ?P = "step ''check_style'' ''#btn'' ''yellow background''"
  let ?B = "step ''click'' ''#btn'' []"
  let ?T = "step ''check_text'' ''h1'' ''Hello''"
  let ?N = "step ''navigate'' [] ''/settings''"
  let ?F = "step ''fill_input'' ''#btn'' ''abc''"
  let ?s5 = "snd (call Launch (launch demoBrowser) (start 100))"
  let ?s0 = "snd (openPage demoBrowser portal ?s5)"
  let ?rs = "fst (runScenarios demoBrowser styleThenClick [] ?s0)"
  let ?q0 = "call (Query (target (styleThenClick ! 0)))
               (querySelector demoBrowser (target (styleThenClick ! 0)))
               (sessionBefore demoBrowser styleThenClick ?s0 0)"
  have o: "call Launch (launch demoBrowser) (start 100) = (Inr (), ?s5) \<and>
           openPage demoBrowser portal ?s5 = (Inr (), ?s0)" by code_simp
  have cl: "fst (call Close (close demoBrowser)
                  (snd (runScenarios demoBrowser styleThenClick [] ?s0))) = Inr ()"
    by code_simp
  have p: "0 < length styleThenClick \<and>
           toLowerCase (action (styleThenClick ! 0)) = ''check_style'' \<and>
           ?q0 = (Inr (Some ''#btn''), snd ?q0) \<and>
           stringMatch (expectedResult (styleThenClick ! 0)) styleRegex = None" by code_simp
  have a: "styleThenClick ! 0 = ?P" "length styleThenClick = 2"
    by (simp_all add: styleThenClick_def)
  have r1: "?rs ! 1 = \<lparr>scenario = ?B, passed = True, error = None,
           actualValue = None, screenshot = None\<rparr>" by code_simp
  have t: "toLowerCase (action ?T) = ''check_text'' \<and>
           stringMatch (expectedResult ?T) textRegex = None \<and>
           call (Query (target ?T)) (querySelector demoBrowser (target ?T)) (start 9) =
             (Inr (Some ''h1''), \<lparr>world = 8, trace = [Query ''h1'']\<rparr>) \<and>
           call TextContent (textContent demoBrowser ''h1'') \<lparr>world = 8, trace = [Query ''h1'']\<rparr> =
             (Inr (Some ''Hello''), \<lparr>world = 7, trace = [Query ''h1'', TextContent]\<rparr>)"
    by code_simp
  have t': "includesStr ''Hello'' (expectedResult ?T)" by code_simp
  have n: "toLowerCase (action ?N) = ''navigate'' \<and>
           stringMatch (expectedResult ?N) navigateRegex = None" by code_simp
  have n': "call (Goto (expectedResult ?N)) (goto demoBrowser (expectedResult ?N)) (start 9) =
             (Inr (), \<lparr>world = 8, trace = [Goto ''/settings'']\<rparr>)" by code_simp
  have f: "toLowerCase (action ?F) = ''fill_input'' \<and>
           stringMatch (expectedResult ?F) fillRegex = None \<and>
           call (Query (target ?F)) (querySelector demoBrowser (target ?F)) (start 9) =
             (Inr (Some ''#btn''), \<lparr>world = 8, trace = [Query ''#btn'']\<rparr>)" by code_simp
  have f': "call (TypeText (expectedResult ?F)) (typeText demoBrowser ''#btn'' (expectedResult ?F))
             \<lparr>world = 8, trace = [Query ''#btn'']\<rparr> =
             (Inr (), \<lparr>world = 7, trace = [Query ''#btn'', TypeText ''abc'']\<rparr>)" by code_simp
  note th = parse_failure_only_in_checkStyle [where d = demoBrowser]
  from th [where scenarios = styleThenClick and i = 0 and ?s0.0 = ?s0 and el = "''#btn''"
             and ?s1.0 = "snd ?q0"] p
  have "length ?rs = length styleThenClick \<and>
        ?rs ! 0 = \<lparr>scenario = styleThenClick ! 0, passed = False,
         error = Some (''Could not parse expected result format. Use: '' @ [dq] @
                       ''property-name should be value'' @ [dq]),
         actualValue = None, screenshot = None\<rparr>" by blast
  then have len: "length ?rs = 2"
    and r0: "?rs ! 0 = \<lparr>scenario = ?P, passed = False,
         error = Some (''Could not parse expected result format. Use: '' @ [dq] @
                       ''property-name should be value'' @ [dq]),
         actualValue = None, screenshot = None\<rparr>"
    by (simp_all only: a)
  from th [where scenarios = styleThenClick and portalUrl = portal and ?s4.0 = "start 100"
             and ?s5.0 = ?s5 and ?s0.0 = ?s0] o
  have "fst (runTests demoBrowser portal styleThenClick (start 100)) =
        (case fst (call Close (close demoBrowser)
                     (snd (runScenarios demoBrowser styleThenClick [] ?s0))) of
           Inl e' \<Rightarrow> Inl e'
         | Inr _ \<Rightarrow> Inr ?rs)" by blast
  then have run: "fst (runTests demoBrowser portal styleThenClick (start 100)) = Inr ?rs"
    by (simp only: cl sum.case)
  have "?rs = [\<lparr>scenario = ?P, passed = False,
           error = Some (''Could not parse expected result format. Use: '' @ [dq] @
                         ''property-name should be value'' @ [dq]),
           actualValue = None, screenshot = None\<rparr>,
          \<lparr>scenario = ?B, passed = True, error = None,
           actualValue = None, screenshot = None\<rparr>]"
    using len r0 r1 by (auto simp: list_eq_iff_nth_eq less_Suc_eq numeral_2_eq_2)
  with run have 1: "fst (runTests demoBrowser portal styleThenClick (start 100)) =
     Inr [\<lparr>scenario = ?P, passed = False,
           error = Some (''Could not parse expected result format. Use: '' @ [dq] @
                         ''property-name should be value'' @ [dq]),
           actualValue = None, screenshot = None\<rparr>,
          \<lparr>scenario = ?B, passed = True, error = None,
           actualValue = None, screenshot = None\<rparr>]" by simp
  from th [where sc = ?T and s = "start 9" and el = "''h1''" and actualText = "Some ''Hello''"
             and ?s1.0 = "\<lparr>world = 8, trace = [Query ''h1'']\<rparr>"
             and ?s2.0 = "\<lparr>world = 7, trace = [Query ''h1'', TextContent]\<rparr>"] t
  have "executeScenario demoBrowser ?T (start 9) =
        (\<lparr>scenario = ?T,
          passed = (case Some ''Hello'' of
                      None \<Rightarrow> False
                    | Some t \<Rightarrow> includesStr t (expectedResult ?T) \<or> t = expectedResult ?T),
          error = (if (case Some ''Hello'' of
                         None \<Rightarrow> False
                       | Some t \<Rightarrow> includesStr t (expectedResult ?T) \<or> t = expectedResult ?T)
                   then None
                   else Some (''Expected text to contain '' @ [dq] @ expectedResult ?T @ [dq] @
                              '', but got '' @ [dq] @
                              (case Some ''Hello'' of None \<Rightarrow> ''null'' | Some t \<Rightarrow> t) @ [dq])),
          actualValue = Some (case Some ''Hello'' of None \<Rightarrow> [] | Some t \<Rightarrow> t),
          screenshot = None\<rparr>, \<lparr>world = 7, trace = [Query ''h1'', TextContent]\<rparr>)" by blast
  then have 2: "executeScenario demoBrowser ?T (start 9) =
     (\<lparr>scenario = ?T, passed = True, error = None,
       actualValue = Some ''Hello'', screenshot = None\<rparr>,
      \<lparr>world = 7, trace = [Query ''h1'', TextContent]\<rparr>)"
    by (simp only: option.case t' simp_thms if_True)
  from th [where sc = ?N and s = "start 9"] n
  have "executeScenario demoBrowser ?N (start 9) =
        (case call (Goto (expectedResult ?N)) (goto demoBrowser (expectedResult ?N)) (start 9) of
           (Inl e, s1) \<Rightarrow>
             (\<lparr>scenario = ?N, passed = False, error = Some (message e), actualValue = None,
               screenshot = None\<rparr>, s1)
         | (Inr _, s1) \<Rightarrow>
             (\<lparr>scenario = ?N, passed = True, error = None, actualValue = None,
               screenshot = None\<rparr>, s1))" by blast
  then have 3: "executeScenario demoBrowser ?N (start 9) =
     (\<lparr>scenario = ?N, passed = True, error = None,
       actualValue = None, screenshot = None\<rparr>,
      \<lparr>world = 8, trace = [Goto ''/settings'']\<rparr>)"
    by (simp only: n' prod.case sum.case)
  from th [where sc = ?F and s = "start 9" and el = "''#btn''"
             and ?s1.0 = "\<lparr>world = 8, trace = [Query ''#btn'']\<rparr>"] f
  have "executeScenario demoBrowser ?F (start 9) =
        (case call (TypeText (expectedResult ?F)) (typeText demoBrowser ''#btn'' (expectedResult ?F))
                \<lparr>world = 8, trace = [Query ''#btn'']\<rparr> of
           (Inl e, s2) \<Rightarrow>
             (\<lparr>scenario = ?F, passed = False, error = Some (message e), actualValue = None,
               screenshot = None\<rparr>, s2)
         | (Inr _, s2) \<Rightarrow>
             (\<lparr>scenario = ?F, passed = True, error = None, actualValue = None,
               screenshot = None\<rparr>, s2))" by blast
  then have 4: "executeScenario demoBrowser ?F (start 9) =
     (\<lparr>scenario = ?F, passed = True, error = None,
       actualValue = None, screenshot = None\<rparr>,
      \<lparr>world = 7, trace = [Query ''#btn'', TypeText ''abc'']\<rparr>)"
    by (simp only: f' prod.case sum.case)
  from 1 2 3 4 show ?thesis by (simp only: simp_thms)
qed

section \<open>Actions outside the dispatcher\<close>

text \<open>
  C10. A scenario whose action, in lower case, is none of the seven actions of the
  dispatcher gets a result with \<open>passed\<close> false and the error \<open>Unknown action:\<close> followed
  by the action as written, and the session is not touched. The run goes on: the loop
  returns one result for every scenario, this one at its index and every other one the
  result of \<open>executeScenario\<close> on its scenario, and once the page is open the run returns
  the results of the loop, unless closing the browser throws.
\<close>

theorem unknown_action_fails_and_run_continues:
  assumes "toLowerCase (action (scenarios ! i)) \<notin>
     {''navigate'', ''click'', ''hover'', ''fill_input'', ''check_style'', ''check_text'',
      ''check_visibility''}"
    and "i < length scenarios"
  shows "executeScenario d (scenarios ! i) s' =
           (\<lparr>scenario = scenarios ! i, passed = False,
             error = Some (''Unknown action: '' @ action (scenarios ! i)),
             actualValue = None, screenshot = None\<rparr>, s') \<and>
         length (fst (runScenarios d scenarios [] s2)) = length scenarios \<and>
         fst (runScenarios d scenarios [] s2) ! i =
           \<lparr>scenario = scenarios ! i, passed = False,
            error = Some (''Unknown action: '' @ action (scenarios ! i)),
            actualValue = None, screenshot = None\<rparr> \<and>
         sessionBefore d scenarios s2 (Suc i) = sessionBefore d scenarios s2 i \<and>
         (\<forall>j<length scenarios.
            fst (runScenarios d scenarios [] s2) ! j =
            fst (executeScenario d (scenarios ! j) (sessionBefore d scenarios s2 j))) \<and>
         (call Launch (launch d) s = (Inr (), s1) \<and> openPage d portalUrl s1 = (Inr (), s2) \<longrightarrow>
            fst (runTests d portalUrl scenarios s) =
              (case fst (call Close (close d) (snd (runScenarios d scenarios [] s2))) of
                 Inl e \<Rightarrow> Inl e
               | Inr _ \<Rightarrow> Inr (fst (runScenarios d scenarios [] s2))))"
proof -
  have u: "executeScenario d (scenarios ! i) x =
           (\<lparr>scenario = scenarios ! i, passed = False,
             error = Some (''Unknown action: '' @ action (scenarios ! i)),
             actualValue = None, screenshot = None\<rparr>, x)" for x
    using executeScenario_unknown [OF assms(1)] by (simp add: failed_def)
  have "sessionBefore d scenarios s2 (Suc i) = sessionBefore d scenarios s2 i"
    by (simp add: sessionBefore_Suc [OF assms(2)] u)
  moreover have "fst (runScenarios d scenarios [] s2) ! i =
           \<lparr>scenario = scenarios ! i, passed = False,
            error = Some (''Unknown action: '' @ action (scenarios ! i)),
            actualValue = None, screenshot = None\<rparr>"
    by (simp add: runScenarios_at [OF assms(2)] u)
  ultimately show ?thesis
    using u [of s'] by (auto simp: runScenarios_length runScenarios_at dest: runTests_after_open)
qed

theorem unknown_action_fails_and_run_continues_witness:
  "fst (runTests demoBrowser portal dragAndClick (start 100)) =
     Inr [\<lparr>scenario = step ''drag_drop'' ''#btn'' ''drag to h1'', passed = False,
           error = Some ''Unknown action: drag_drop'', actualValue = None, screenshot = None\<rparr>,
          \<lparr>scenario = step ''click'' ''#btn'' [], passed = True,
           error = None, actualValue = None, screenshot = None\<rparr>]"
proof -
  let ?s1 = "snd (call Launch (launch demoBrowser) (start 100))"
  let ?s2 = "snd (openPage demoBrowser portal ?s1)"
  let ?rs = "fst (runScenarios demoBrowser dragAndClick [] ?s2)"
  have u: "toLowerCase (action (dragAndClick ! 0)) \<notin>
     {''navigate'', ''click'', ''hover'', ''fill_input'', ''check_style'', ''check_text'',
      ''check_visibility''}" by code_simp
  have i: "0 < length dragAndClick" by code_simp
  have o: "call Launch (launch demoBrowser) (start 100) = (Inr (), ?s1) \<and>
           openPage demoBrowser portal ?s1 = (Inr (), ?s2)" by code_simp
  have c: "fst (call Close (close demoBrowser) (snd (runScenarios demoBrowser dragAndClick [] ?s2))) =
           Inr ()" by code_simp
  have a: "dragAndClick ! 0 = step ''drag_drop'' ''#btn'' ''drag to h1''"
    "action (step ''drag_drop'' ''#btn'' ''drag to h1'') = ''drag_drop''"
    "length dragAndClick = 2"
    by (simp_all add: dragAndClick_def step_def)
  have r1: "?rs ! 1 = \<lparr>scenario = step ''click'' ''#btn'' [], passed = True,
           error = None, actualValue = None, screenshot = None\<rparr>" by code_simp
  note t = unknown_action_fails_and_run_continues [OF u i, where d = demoBrowser
      and portalUrl = portal and s = "start 100" and ?s1.0 = ?s1 and ?s2.0 = ?s2]
  from t have len: "length ?rs = 2" by (simp add: a)
  from t have r0: "?rs ! 0 = \<lparr>scenario = step ''drag_drop'' ''#btn'' ''drag to h1'', passed = False,
           error = Some ''Unknown action: drag_drop'', actualValue = None, screenshot = None\<rparr>"
    by (simp add: a)
  from t o c have run: "fst (runTests demoBrowser portal dragAndClick (start 100)) = Inr ?rs"
    by simp
  have "?rs = [\<lparr>scenario = step ''drag_drop'' ''#btn'' ''drag to h1'', passed = False,
           error = Some ''Unknown action: drag_drop'', actualValue = None, screenshot = None\<rparr>,
          \<lparr>scenario = step ''click'' ''#btn'' [], passed = True,
           error = None, actualValue = None, screenshot = None\<rparr>]"
    using len r0 r1 by (auto simp: list_eq_iff_nth_eq less_Suc_eq numeral_2_eq_2)
  with run show ?thesis by simp
qed

end
